theory Spec2Isabelle
  imports Main
begin

section \<open>The merge bot of oca-github-bot (tasks/merge\_bot.py)\<close>

text \<open>
  A shallow embedding of \<^verbatim>\<open>src/oca_github_bot/tasks/merge_bot.py\<close>. The module is a
  sequence of calls into collaborators that live outside of it (git through
  \<^verbatim>\<open>subprocess\<close>, the GitHub client, the manifest and wheel helpers, the configuration).
  Every such call is an \<^emph>\<open>event\<close>; a run of a function takes the list of events that
  happened so far and returns its result (an exception or a value) together with the
  extended list. What a collaborator answers is a parameter of the model: the record
  \<open>env\<close> holds the configuration, the branch name codec and one oracle per kind of
  call, each of which may depend on everything that happened before.
\<close>

subsection \<open>Strings\<close>

text \<open>Python's \<^verbatim>\<open>s.startswith(p)\<close> and \<^verbatim>\<open>sub in s\<close> on strings.\<close>

definition startswith :: "string \<Rightarrow> string \<Rightarrow> bool" where
  "startswith s p = (take (length p) s = p)"

fun contains :: "string \<Rightarrow> string \<Rightarrow> bool" where
  "contains sub [] = (sub = [])"
| "contains sub (c # cs) = (startswith (c # cs) sub \<or> contains sub cs)"

text \<open>\<^verbatim>\<open>" ".join(xs)\<close>\<close>

fun join_sp :: "string list \<Rightarrow> string" where
  "join_sp [] = []"
| "join_sp [x] = x"
| "join_sp (x # y # ys) = x @ '' '' @ join_sp (y # ys)"

text \<open>The decimal rendering of a number, as an f-string prints a pull request number.\<close>

definition digit_char :: "nat \<Rightarrow> char" where
  "digit_char d = ''0123456789'' ! d"

function str_nat :: "nat \<Rightarrow> string" where
  "str_nat n = (if n < 10 then [digit_char n] else str_nat (n div 10) @ [digit_char (n mod 10)])"
  by pat_completeness auto
termination
  by (relation "measure id") auto

declare str_nat.simps [simp del]

text \<open>\<^verbatim>\<open>str(i)\<close> of an integer, as \<^verbatim>\<open>%d\<close> formats it.\<close>

definition str_int :: "int \<Rightarrow> string" where
  "str_int i = (if i < 0 then ''-'' @ str_nat (nat (- i)) else str_nat (nat i))"

text \<open>Truthiness of an optional string: \<^verbatim>\<open>None\<close> and the empty string are false.\<close>

fun truthy :: "string option \<Rightarrow> bool" where
  "truthy None = False"
| "truthy (Some s) = (s \<noteq> [])"

subsection \<open>The CI signal aggregator: \<^verbatim>\<open>_get_commit_success\<close>\<close>

record status =
  status_context :: string
  status_state :: string

record check_suite =
  app_name :: string
  conclusion :: "string option"

text \<open>
  The verdict is Python's \<^verbatim>\<open>True\<close> / \<^verbatim>\<open>False\<close> / \<^verbatim>\<open>None\<close>:
  \<open>Some True\<close> is success, \<open>Some False\<close> is failure, \<open>None\<close> is pending or unknown.

  Each loop either executes a \<^verbatim>\<open>return\<close> (\<open>Inl\<close> of the returned verdict) or runs to
  its end (\<open>Inr\<close> of the loop variables). The first loop carries \<^verbatim>\<open>success\<close> and
  \<^verbatim>\<open>old_travis\<close>; the second reads \<^verbatim>\<open>old_travis\<close> and carries \<^verbatim>\<open>success\<close>.
\<close>

fun statuses_loop ::
  "string list \<Rightarrow> status list \<Rightarrow> bool option \<times> bool \<Rightarrow> bool option + bool option \<times> bool" where
  "statuses_loop ignored [] (success, old_travis) = Inr (success, old_travis)"
| "statuses_loop ignored (s # ss) (success, old_travis) =
     (if status_context s \<in> set ignored then statuses_loop ignored ss (success, old_travis)
      else if status_state s = ''success'' then
        statuses_loop ignored ss
          (Some True,
           if startswith (status_context s) ''continuous-integration/travis-ci'' then True
           else old_travis)
      else if status_state s = ''pending'' then Inl None
      else Inl (Some False))"

fun check_suites_loop ::
  "string list \<Rightarrow> bool \<Rightarrow> check_suite list \<Rightarrow> bool option \<Rightarrow> bool option + bool option" where
  "check_suites_loop ignored old_travis [] success = Inr success"
| "check_suites_loop ignored old_travis (c # cs) success =
     (if app_name c \<in> set ignored then check_suites_loop ignored old_travis cs success
      else if conclusion c = Some ''success'' then
        check_suites_loop ignored old_travis cs (Some True)
      else if \<not> truthy (conclusion c) then
        (if app_name c = ''Travis CI'' \<and> old_travis then
           check_suites_loop ignored old_travis cs success
         else Inl None)
      else Inl (Some False))"

text \<open>
  The body of \<^verbatim>\<open>_get_commit_success\<close> on the two lists the GitHub client answers
  (\<^verbatim>\<open>gh_status.statuses\<close> and \<^verbatim>\<open>gh_check_suites\<close>), with the two ignore lists of the
  configuration.
\<close>

definition commit_success ::
  "string list \<Rightarrow> string list \<Rightarrow> status list \<Rightarrow> check_suite list \<Rightarrow> bool option" where
  "commit_success status_ignored suites_ignored statuses suites =
     (case statuses_loop status_ignored statuses (None, False) of
        Inl verdict \<Rightarrow> verdict
      | Inr (success, old_travis) \<Rightarrow>
          (case check_suites_loop suites_ignored old_travis suites success of
             Inl verdict \<Rightarrow> verdict
           | Inr success' \<Rightarrow> success'))"

subsection \<open>Exceptions, events and the environment\<close>

text \<open>
  \<^verbatim>\<open>subprocess.CalledProcessError\<close> carries the command and its captured output; every
  other exception is kept with its description (what \<^verbatim>\<open>f"{e}"\<close> prints).
\<close>

datatype exn = CalledProcessError "string list" string | OtherException string

text \<open>The bump policy: \<^verbatim>\<open>bumpversion\<close> is \<^verbatim>\<open>None\<close> or one of three levels.\<close>

datatype bumpversion = Patch | Minor | Major

text \<open>What the module reads of a pull request object of the GitHub client.\<close>

record gh_pr =
  base_ref :: string
  url :: string

text \<open>One constructor per call that leaves the module, with the arguments of the call.\<close>

datatype event =
    GitCall "string list"
  | SubprocessCall "string list"
  | LogInfo string
  | RandInt int int
  | TemporaryClone string string string
  | TemporaryCloneExit
  | GitGetHeadSha
  | GhRepository string string
  | GitUserCanPush string string string
  | GhPullRequest string string nat
  | CreateComment nat string
  | GhIssue nat
  | AddLabels nat string
  | ClosePR nat
  | GhCommit string string string
  | GhStatus string
  | GhCheckSuites string
  | GitModifiedAddonDirs string string
  | MainBranchBotActions string string string
  | BumpManifestVersion string bumpversion bool
  | BuildAndCheckWheel string
  | BuildAndPublishWheel string string bool

type_synonym history = "event list"

text \<open>
  The environment. The first five fields are the configuration
  (\<^verbatim>\<open>oca_github_bot.config\<close>); \<open>merge_bot_enabled\<close> is the state of the
  feature switch \<^verbatim>\<open>merge_bot\<close>. The codec of \<^verbatim>\<open>version_branch\<close> is a pair of
  pure functions, of which the decoder may raise. The remaining fields are the oracles:
  \<open>subprocess_run\<close> answers the exit code and the captured output of a command,
  \<open>effect\<close> answers whether a call that returns nothing raises, and the others answer
  the value a call returns or the exception it raises.

  Two things of the source leave no event: \<^verbatim>\<open>github.login()\<close>, a scope that only
  builds the client, and the decorator \<^verbatim>\<open>@task()\<close>, under which a direct call of the
  function runs its body in place.
\<close>

record env =
  merge_bot_enabled :: bool
  GITHUB_STATUS_IGNORED :: "string list"
  GITHUB_CHECK_SUITES_IGNORED :: "string list"
  MERGE_BOT_INTRO_MESSAGES :: "string list"
  SIMPLE_INDEX_ROOT :: "string option"
  make_merge_bot_branch :: "nat \<Rightarrow> string \<Rightarrow> string \<Rightarrow> bumpversion option \<Rightarrow> string"
  parse_merge_bot_branch :: "string \<Rightarrow> exn + nat \<times> string \<times> string \<times> bumpversion option"
  subprocess_run :: "history \<Rightarrow> string list \<Rightarrow> int \<times> string"
  effect :: "history \<Rightarrow> event \<Rightarrow> exn option"
  random_source :: "history \<Rightarrow> nat"
  git_get_head_sha :: "history \<Rightarrow> exn + string"
  git_user_can_push :: "history \<Rightarrow> string \<Rightarrow> string \<Rightarrow> string \<Rightarrow> exn + bool"
  pull_request :: "history \<Rightarrow> string \<Rightarrow> string \<Rightarrow> nat \<Rightarrow> exn + gh_pr"
  commit_statuses :: "history \<Rightarrow> string \<Rightarrow> exn + status list"
  commit_check_suites :: "history \<Rightarrow> string \<Rightarrow> exn + check_suite list"
  git_modified_addon_dirs :: "history \<Rightarrow> string \<Rightarrow> string \<Rightarrow> exn + string list"

subsection \<open>Runs\<close>

text \<open>
  A run maps the history to an outcome and the extended history. \<open>Inl e\<close> is the
  exception \<open>e\<close> propagating, \<open>Inr x\<close> is a normal return of \<open>x\<close>.
\<close>

type_synonym 'a run = "history \<Rightarrow> (exn + 'a) \<times> history"

definition ret :: "'a \<Rightarrow> 'a run" where
  "ret x = (\<lambda>h. (Inr x, h))"

definition raise :: "exn \<Rightarrow> 'a run" where
  "raise e = (\<lambda>h. (Inl e, h))"

definition lift :: "exn + 'a \<Rightarrow> 'a run" where
  "lift r = (\<lambda>h. (r, h))"

text \<open>Sequencing: an exception of the first part skips the rest.\<close>

definition bnd :: "'a run \<Rightarrow> ('a \<Rightarrow> 'b run) \<Rightarrow> 'b run" where
  "bnd m f = (\<lambda>h. case m h of (Inl e, h') \<Rightarrow> (Inl e, h') | (Inr x, h') \<Rightarrow> f x h')"

text \<open>\<^verbatim>\<open>try: m  except ... as e: handler(e)\<close>\<close>

definition try_except :: "'a run \<Rightarrow> (exn \<Rightarrow> 'a run) \<Rightarrow> 'a run" where
  "try_except m handler =
     (\<lambda>h. case m h of (Inl e, h') \<Rightarrow> handler e h' | (Inr x, h') \<Rightarrow> (Inr x, h'))"

text \<open>\<^verbatim>\<open>_logger.info(msg)\<close>\<close>

definition log_info :: "string \<Rightarrow> unit run" where
  "log_info msg = (\<lambda>h. (Inr (), h @ [LogInfo msg]))"

text \<open>A call that returns nothing, and a call that returns a value.\<close>

definition effect_call :: "env \<Rightarrow> event \<Rightarrow> unit run" where
  "effect_call env ev =
     (\<lambda>h. (case effect env h ev of None \<Rightarrow> Inr () | Some e \<Rightarrow> Inl e, h @ [ev]))"

definition ask :: "(history \<Rightarrow> exn + 'a) \<Rightarrow> event \<Rightarrow> 'a run" where
  "ask oracle ev = (\<lambda>h. (oracle h, h @ [ev]))"

text \<open>
  \<^verbatim>\<open>_git_call(cmd)\<close> is \<^verbatim>\<open>subprocess.check_output(cmd, ...)\<close>, which raises
  \<^verbatim>\<open>CalledProcessError\<close> on a non-zero exit code; \<^verbatim>\<open>subprocess.call(cmd)\<close> returns
  the exit code.
\<close>

definition git_call :: "env \<Rightarrow> string list \<Rightarrow> unit run" where
  "git_call env cmd =
     (\<lambda>h. case subprocess_run env h cmd of
        (rc, out) \<Rightarrow>
          (if rc = 0 then Inr () else Inl (CalledProcessError cmd out), h @ [GitCall cmd]))"

definition subprocess_call :: "env \<Rightarrow> string list \<Rightarrow> int run" where
  "subprocess_call env cmd = (\<lambda>h. (Inr (fst (subprocess_run env h cmd)), h @ [SubprocessCall cmd]))"

text \<open>
  \<^verbatim>\<open>random.randint(a, b)\<close> is \<^verbatim>\<open>randrange(a, b + 1)\<close>: on an empty range it raises
  \<^verbatim>\<open>ValueError("empty range for randrange() (%d, %d, %d)" % (a, b + 1, b + 1 - a))\<close>,
  and otherwise it returns a number between \<open>a\<close> and \<open>b\<close>, both included.
\<close>

definition randint :: "env \<Rightarrow> int \<Rightarrow> int \<Rightarrow> int run" where
  "randint env a b =
     (\<lambda>h. (if b < a then
             Inl (OtherException
                    (''empty range for randrange() ('' @ str_int a @ '', '' @ str_int (b + 1)
                     @ '', '' @ str_int (b + 1 - a) @ '')''))
           else Inr (a + int (random_source env h) mod (b - a + 1)),
           h @ [RandInt a b]))"

text \<open>
  Modelled from the spec: the context manager \<^verbatim>\<open>github.temporary_clone\<close>, which is not
  among the sources. \<^verbatim>\<open>with github.temporary_clone(org, repo, branch): body\<close> acquires
  a working clone, which may raise, and once acquired releases it unconditionally on
  exit, however the body ends.
\<close>

definition temporary_clone :: "env \<Rightarrow> string \<Rightarrow> string \<Rightarrow> string \<Rightarrow> 'a run \<Rightarrow> 'a run" where
  "temporary_clone env org repo branch body =
     bnd (effect_call env (TemporaryClone org repo branch))
       (\<lambda>_ h. case body h of (r, h') \<Rightarrow> (r, h' @ [TemporaryCloneExit]))"

subsection \<open>The module\<close>

definition LABEL_MERGED :: string where
  "LABEL_MERGED = ''merged '' @ [CHR 0xF0, CHR 0x9F, CHR 0x8E, CHR 0x89]"

definition git_delete_branch :: "env \<Rightarrow> string \<Rightarrow> string \<Rightarrow> unit run" where
  "git_delete_branch env remote branch =
     try_except (git_call env [''git'', ''push'', remote, '':'' @ branch])
       (\<lambda>e. case e of
          CalledProcessError c out \<Rightarrow>
            if contains ''unable to delete'' out then ret () else raise e
        | OtherException d \<Rightarrow> raise e)"

definition get_merge_bot_intro_message :: "env \<Rightarrow> string run" where
  "get_merge_bot_intro_message env =
     bnd (randint env 0 (int (length (MERGE_BOT_INTRO_MESSAGES env)) - 1))
       (\<lambda>i. ret (MERGE_BOT_INTRO_MESSAGES env ! nat i))"

text \<open>The comments and log lines the module formats.\<close>

definition no_push_permission_comment :: "string \<Rightarrow> string" where
  "no_push_permission_comment username =
     ''Sorry @'' @ username @ '' you do not have push permission, so I can't merge for you.''"

definition rebased_comment :: "string \<Rightarrow> string \<Rightarrow> string \<Rightarrow> string \<Rightarrow> string" where
  "rebased_comment intro_message org repo merge_bot_branch =
     intro_message @ [CHR 10] @ ''Rebased to ['' @ merge_bot_branch @ '']''
     @ ''(https://github.com/'' @ org @ ''/'' @ repo @ ''/commits/'' @ merge_bot_branch @ '')''
     @ '', awaiting test results.''"

fun start_failure_comment :: "string \<Rightarrow> exn \<Rightarrow> string" where
  "start_failure_comment username (CalledProcessError c out) =
     ''@'' @ username @ '' The merge process could not start, because ''
     @ ''command `'' @ join_sp c @ ''` failed with output:'' @ [CHR 10] @ ''```'' @ [CHR 10]
     @ out @ [CHR 10] @ ''```''"
| "start_failure_comment username (OtherException d) =
     ''@'' @ username @ '' The merge process could not start, because ''
     @ ''of exception '' @ d @ ''.''"

fun finalize_failure_comment :: "string \<Rightarrow> exn \<Rightarrow> string" where
  "finalize_failure_comment username (CalledProcessError c out) =
     ''@'' @ username @ '' The merge process could not be finalized, because ''
     @ ''command `'' @ join_sp c @ ''` failed with output:'' @ [CHR 10] @ ''```'' @ [CHR 10]
     @ out @ [CHR 10] @ ''```''"
| "finalize_failure_comment username (OtherException d) =
     ''@'' @ username @ '' The merge process could not be finalized ''
     @ ''because an exception was raised: '' @ d @ ''.''"

definition retry_intro_message :: "string \<Rightarrow> string" where
  "retry_intro_message target_branch =
     ''It looks like something changed on `'' @ target_branch @ ''` in the meantime.''
     @ [CHR 10] @ ''Let me try again (no action is required from you).''"

definition rebasing_again_log :: "string \<Rightarrow> string \<Rightarrow> string" where
  "rebasing_again_log merge_bot_branch target_branch =
     merge_bot_branch @ '' can't be fast forwarded on '' @ target_branch @ '', rebasing again.''"

definition merge_msg :: "nat \<Rightarrow> string \<Rightarrow> string \<Rightarrow> string" where
  "merge_msg pr target_branch username =
     ''Merge PR #'' @ str_nat pr @ '' into '' @ target_branch @ [CHR 10, CHR 10]
     @ ''Signed-off-by '' @ username"

definition merged_comment :: "string \<Rightarrow> string \<Rightarrow> string \<Rightarrow> string" where
  "merged_comment merge_sha org target_branch =
     ''Congratulations, your PR was merged at '' @ merge_sha @ ''. ''
     @ ''Thanks a lot for contributing to '' @ org @ ''. ''
     @ [CHR 0xE2, CHR 0x9D, CHR 0xA4, CHR 0xEF, CHR 0xB8, CHR 0x8F] @ [CHR 10, CHR 10]
     @ ''PS: Don't worry if GitHub says there are ''
     @ ''unmerged commits: it is due to a rebase before merge. ''
     @ ''All commits of this PR have been merged into `'' @ target_branch @ ''`.''"

definition aborted_comment :: "string \<Rightarrow> string \<Rightarrow> string \<Rightarrow> string \<Rightarrow> string \<Rightarrow> string" where
  "aborted_comment username merge_bot_branch org repo sha =
     ''@'' @ username @ '' your merge command was aborted due to failed ''
     @ ''check(s), which you can inspect on ''
     @ ''[this commit of '' @ merge_bot_branch @ '']''
     @ ''(https://github.com/'' @ org @ ''/'' @ repo @ ''/commits/'' @ sha @ '').''
     @ [CHR 10, CHR 10]
     @ ''After fixing the problem, you can re-issue a merge command. ''
     @ ''Please refrain from merging manually as it will most probably ''
     @ ''make the target branch red.''"

text \<open>
  \<^verbatim>\<open>merge_bot_start\<close>. The body of its \<^verbatim>\<open>try\<close> block comes first, as a run of its own;
  \<^verbatim>\<open>target_branch\<close> is \<^verbatim>\<open>gh_pr.base.ref\<close>. The parameter \<^verbatim>\<open>dry_run\<close> is accepted
  and never read.

  Modelled from the spec: the decorator \<^verbatim>\<open>@switchable("merge_bot")\<close> of the
  configuration, which is not among the sources. It is the named feature switch that
  guards both entry points: with the switch off the call returns \<^verbatim>\<open>None\<close> and the body
  is not run.
\<close>

definition merge_bot_start_try ::
  "env \<Rightarrow> string \<Rightarrow> string \<Rightarrow> nat \<Rightarrow> string \<Rightarrow> bumpversion option \<Rightarrow> string option \<Rightarrow> string
     \<Rightarrow> unit run" where
  "merge_bot_start_try env org repo pr username bumpversion intro_message target_branch =
     temporary_clone env org repo target_branch
       (let merge_bot_branch = make_merge_bot_branch env pr target_branch username bumpversion in
        bnd (git_call env
               [''git'', ''fetch'', ''origin'',
                ''pull/'' @ str_nat pr @ ''/head:'' @ merge_bot_branch]) (\<lambda>_.
        bnd (git_call env [''git'', ''checkout'', merge_bot_branch]) (\<lambda>_.
        bnd (git_call env [''git'', ''rebase'', ''--autosquash'', target_branch]) (\<lambda>_.
        bnd (git_delete_branch env ''origin'' merge_bot_branch) (\<lambda>_.
        bnd (git_call env [''git'', ''push'', ''origin'', merge_bot_branch]) (\<lambda>_.
        bnd (case intro_message of
               None \<Rightarrow> get_merge_bot_intro_message env
             | Some m \<Rightarrow> if m = [] then get_merge_bot_intro_message env else ret m) (\<lambda>intro.
        effect_call env
          (CreateComment pr (rebased_comment intro org repo merge_bot_branch)))))))))"

definition merge_bot_start ::
  "env \<Rightarrow> string \<Rightarrow> string \<Rightarrow> nat \<Rightarrow> string \<Rightarrow> bumpversion option \<Rightarrow> bool \<Rightarrow> string option
     \<Rightarrow> unit run" where
  "merge_bot_start env org repo pr username bumpversion dry_run intro_message =
     (if \<not> merge_bot_enabled env then ret ()
      else
        bnd (effect_call env (GhRepository org repo)) (\<lambda>_.
        bnd (ask (\<lambda>h. git_user_can_push env h org repo username)
               (GitUserCanPush org repo username)) (\<lambda>can_push.
        if \<not> can_push then
          bnd (ask (\<lambda>h. pull_request env h org repo pr) (GhPullRequest org repo pr)) (\<lambda>gh_pr.
          effect_call env (CreateComment pr (no_push_permission_comment username)))
        else
          bnd (ask (\<lambda>h. pull_request env h org repo pr) (GhPullRequest org repo pr)) (\<lambda>gh_pr.
          try_except
            (merge_bot_start_try env org repo pr username bumpversion intro_message
               (base_ref gh_pr))
            (\<lambda>e. bnd (effect_call env (CreateComment pr (start_failure_comment username e)))
                   (\<lambda>_. raise e))))))"

text \<open>\<^verbatim>\<open>_merge_bot_merge_pr\<close> and the two loops over the modified addons.\<close>

fun bump_loop :: "env \<Rightarrow> bumpversion option \<Rightarrow> string list \<Rightarrow> unit run" where
  "bump_loop env bumpversion [] = ret ()"
| "bump_loop env bumpversion (addon_dir # rest) =
     bnd (case bumpversion of
            None \<Rightarrow> ret ()
          | Some b \<Rightarrow>
              bnd (effect_call env (BumpManifestVersion addon_dir b True)) (\<lambda>_.
              effect_call env (BuildAndCheckWheel addon_dir)))
       (\<lambda>_. bump_loop env bumpversion rest)"

fun publish_loop :: "env \<Rightarrow> string \<Rightarrow> bool \<Rightarrow> string list \<Rightarrow> unit run" where
  "publish_loop env index_root dry_run [] = ret ()"
| "publish_loop env index_root dry_run (addon_dir # rest) =
     bnd (effect_call env (BuildAndPublishWheel addon_dir index_root dry_run))
       (\<lambda>_. publish_loop env index_root dry_run rest)"

definition merge_bot_merge_pr :: "env \<Rightarrow> string \<Rightarrow> string \<Rightarrow> string \<Rightarrow> bool \<Rightarrow> bool run" where
  "merge_bot_merge_pr env org repo merge_bot_branch dry_run =
     bnd (lift (parse_merge_bot_branch env merge_bot_branch))
       (\<lambda>(pr, target_branch, username, bumpversion).
     bnd (git_call env [''git'', ''checkout'', target_branch]) (\<lambda>_.
     bnd (subprocess_call env
            [''git'', ''merge-base'', ''--is-ancestor'', target_branch, merge_bot_branch]) (\<lambda>r.
     if r \<noteq> 0 then
       bnd (log_info (rebasing_again_log merge_bot_branch target_branch)) (\<lambda>_.
       bnd (merge_bot_start env org repo pr username bumpversion dry_run
              (Some (retry_intro_message target_branch))) (\<lambda>_.
       ret False))
     else
       bnd (git_call env
              [''git'', ''fetch'', ''origin'',
               ''refs/pull/'' @ str_nat pr @ ''/head:tmp-pr-'' @ str_nat pr]) (\<lambda>_.
       bnd (git_call env [''git'', ''checkout'', ''tmp-pr-'' @ str_nat pr]) (\<lambda>_.
       bnd (ask (\<lambda>h. git_modified_addon_dirs env h ''.'' target_branch)
              (GitModifiedAddonDirs ''.'' target_branch)) (\<lambda>modified_addon_dirs.
       bnd (git_call env [''git'', ''checkout'', merge_bot_branch]) (\<lambda>_.
       bnd (if modified_addon_dirs \<noteq> []
            then effect_call env (MainBranchBotActions org repo target_branch)
            else ret ()) (\<lambda>_.
       bnd (bump_loop env bumpversion modified_addon_dirs) (\<lambda>_.
       bnd (git_call env [''git'', ''checkout'', target_branch]) (\<lambda>_.
       bnd (git_call env
              [''git'', ''merge'', ''--no-ff'', ''--m'',
               merge_msg pr target_branch username, merge_bot_branch]) (\<lambda>_.
       bnd (if dry_run then
              log_info (''DRY-RUN git push in '' @ org @ ''/'' @ repo @ ''@'' @ target_branch)
            else
              bnd (log_info (''git push in '' @ org @ ''/'' @ repo @ ''@'' @ target_branch)) (\<lambda>_.
              git_call env [''git'', ''push'', ''origin'', target_branch])) (\<lambda>_.
       bnd (case SIMPLE_INDEX_ROOT env of
              None \<Rightarrow> ret ()
            | Some index_root \<Rightarrow>
                if bumpversion \<noteq> None \<and> modified_addon_dirs \<noteq> [] \<and> index_root \<noteq> []
                then publish_loop env index_root dry_run modified_addon_dirs
                else ret ()) (\<lambda>_.
       bnd (git_delete_branch env ''origin'' merge_bot_branch) (\<lambda>_.
       bnd (ask (\<lambda>h. pull_request env h org repo pr) (GhPullRequest org repo pr)) (\<lambda>gh_pr.
       bnd (ask (git_get_head_sha env) GitGetHeadSha) (\<lambda>merge_sha.
       bnd (effect_call env
              (CreateComment pr (merged_comment merge_sha org target_branch))) (\<lambda>_.
       bnd (effect_call env (GhIssue pr)) (\<lambda>_.
       bnd (if dry_run then
              log_info (''DRY-RUN add '' @ LABEL_MERGED @ '' label to PR '' @ url gh_pr)
            else
              bnd (log_info (''add '' @ LABEL_MERGED @ '' label to PR '' @ url gh_pr)) (\<lambda>_.
              effect_call env (AddLabels pr LABEL_MERGED))) (\<lambda>_.
       bnd (effect_call env (ClosePR pr)) (\<lambda>_.
       ret True))))))))))))))))))))"

text \<open>
  \<^verbatim>\<open>_get_commit_success\<close> with its two requests to the GitHub client. The check suites
  are requested only when the first loop ran to its end.
\<close>

definition get_commit_success :: "env \<Rightarrow> string \<Rightarrow> bool option run" where
  "get_commit_success env sha =
     bnd (ask (\<lambda>h. commit_statuses env h sha) (GhStatus sha)) (\<lambda>statuses.
     case statuses_loop (GITHUB_STATUS_IGNORED env) statuses (None, False) of
       Inl verdict \<Rightarrow> ret verdict
     | Inr (success, old_travis) \<Rightarrow>
         bnd (ask (\<lambda>h. commit_check_suites env h sha) (GhCheckSuites sha)) (\<lambda>suites.
         case check_suites_loop (GITHUB_CHECK_SUITES_IGNORED env) old_travis suites success of
           Inl verdict \<Rightarrow> ret verdict
         | Inr success' \<Rightarrow> ret success'))"

text \<open>\<^verbatim>\<open>merge_bot_status\<close>\<close>

definition merge_bot_status :: "env \<Rightarrow> string \<Rightarrow> string \<Rightarrow> string \<Rightarrow> string \<Rightarrow> unit run" where
  "merge_bot_status env org repo merge_bot_branch sha =
     (if \<not> merge_bot_enabled env then ret ()
      else
        temporary_clone env org repo merge_bot_branch
          (bnd (ask (git_get_head_sha env) GitGetHeadSha) (\<lambda>head_sha.
           if head_sha \<noteq> sha then ret ()
           else
             bnd (lift (parse_merge_bot_branch env merge_bot_branch))
               (\<lambda>(pr, target_branch, username, bumpversion).
             bnd (effect_call env (GhRepository org repo)) (\<lambda>_.
             bnd (ask (\<lambda>h. pull_request env h org repo pr) (GhPullRequest org repo pr)) (\<lambda>gh_pr.
             bnd (effect_call env (GhCommit org repo sha)) (\<lambda>_.
             bnd (get_commit_success env sha) (\<lambda>success.
             case success of
               None \<Rightarrow> ret ()
             | Some True \<Rightarrow>
                 try_except
                   (bnd (merge_bot_merge_pr env org repo merge_bot_branch False) (\<lambda>_. ret ()))
                   (\<lambda>e. bnd (effect_call env
                                (CreateComment pr (finalize_failure_comment username e)))
                          (\<lambda>_. raise e))
             | Some False \<Rightarrow>
                 bnd (effect_call env
                        (CreateComment pr
                           (aborted_comment username merge_bot_branch org repo sha))) (\<lambda>_.
                 git_call env [''git'', ''push'', ''origin'', '':'' @ merge_bot_branch])))))))))"

subsection \<open>Kinds of entries\<close>

text \<open>
  The words of the specification for the entries the aggregator reads: an entry is
  ignored when its context (its application) is in the ignore list; a status that is
  not ignored is a success, pending or a failure according to its state; a check suite
  that is not ignored is a success, incomplete (no conclusion, or an empty one) or a
  failure. An incomplete check suite blocks unless it is the one of \<^verbatim>\<open>Travis CI\<close>
  and a status of the legacy provider, not ignored, reported success.
\<close>

definition status_success :: "string list \<Rightarrow> status \<Rightarrow> bool" where
  "status_success ignored s =
     (status_context s \<notin> set ignored \<and> status_state s = ''success'')"

definition status_pending :: "string list \<Rightarrow> status \<Rightarrow> bool" where
  "status_pending ignored s =
     (status_context s \<notin> set ignored \<and> status_state s = ''pending'')"

definition status_failure :: "string list \<Rightarrow> status \<Rightarrow> bool" where
  "status_failure ignored s =
     (status_context s \<notin> set ignored \<and> status_state s \<noteq> ''success''
      \<and> status_state s \<noteq> ''pending'')"

definition legacy_travis_ok :: "string list \<Rightarrow> status list \<Rightarrow> bool" where
  "legacy_travis_ok ignored statuses =
     list_ex (\<lambda>s. status_success ignored s
                \<and> startswith (status_context s) ''continuous-integration/travis-ci'')
       statuses"

definition suite_success :: "string list \<Rightarrow> check_suite \<Rightarrow> bool" where
  "suite_success ignored c = (app_name c \<notin> set ignored \<and> conclusion c = Some ''success'')"

definition suite_incomplete :: "string list \<Rightarrow> check_suite \<Rightarrow> bool" where
  "suite_incomplete ignored c = (app_name c \<notin> set ignored \<and> \<not> truthy (conclusion c))"

definition suite_failure :: "string list \<Rightarrow> check_suite \<Rightarrow> bool" where
  "suite_failure ignored c =
     (app_name c \<notin> set ignored \<and> conclusion c \<noteq> Some ''success'' \<and> truthy (conclusion c))"

definition suite_blocking :: "string list \<Rightarrow> bool \<Rightarrow> check_suite \<Rightarrow> bool" where
  "suite_blocking ignored old_travis c =
     (suite_incomplete ignored c \<and> \<not> (app_name c = ''Travis CI'' \<and> old_travis))"

subsection \<open>Example inputs of the aggregator\<close>

definition ex_ignored :: "string list" where
  "ex_ignored = [''ci/runbot'', ''codecov/project'']"

definition st_travis_ok :: status where
  "st_travis_ok =
     \<lparr>status_context = ''continuous-integration/travis-ci/pr'', status_state = ''success''\<rparr>"

definition st_runbot_failed :: status where
  "st_runbot_failed = \<lparr>status_context = ''ci/runbot'', status_state = ''failure''\<rparr>"

definition st_lint_failed :: status where
  "st_lint_failed = \<lparr>status_context = ''ci/lint'', status_state = ''failure''\<rparr>"

definition st_cla_pending :: status where
  "st_cla_pending = \<lparr>status_context = ''ci/cla'', status_state = ''pending''\<rparr>"

definition cs_travis_incomplete :: check_suite where
  "cs_travis_incomplete = \<lparr>app_name = ''Travis CI'', conclusion = None\<rparr>"

definition cs_actions_incomplete :: check_suite where
  "cs_actions_incomplete = \<lparr>app_name = ''GitHub Actions'', conclusion = None\<rparr>"

definition cs_actions_failed :: check_suite where
  "cs_actions_failed = \<lparr>app_name = ''GitHub Actions'', conclusion = Some ''failure''\<rparr>"

definition cs_actions_ok :: check_suite where
  "cs_actions_ok = \<lparr>app_name = ''GitHub Actions'', conclusion = Some ''success''\<rparr>"

definition cs_dependabot_failed :: check_suite where
  "cs_dependabot_failed = \<lparr>app_name = ''Dependabot'', conclusion = Some ''failure''\<rparr>"

subsection \<open>The events of a finalization that merges\<close>

text \<open>
  The merge sequence of the specification, as the list of events it leaves behind:
  the race check, the fetch of the pull request's head into a temporary ref and its
  checkout, the computation of the modified addons, the maintenance actions and the
  version bumps they drive, the merge commit, the push, the publication of the wheels,
  the deletion of the bot branch, the comment, the label and the closing of the pull
  request. \<open>dirs\<close> is the set of modified addons, \<open>pr_obj\<close> and \<open>merge_sha\<close> are what
  the GitHub client and git answered.
\<close>

definition bump_events :: "bumpversion option \<Rightarrow> string list \<Rightarrow> event list" where
  "bump_events bumpversion dirs =
     (case bumpversion of
        None \<Rightarrow> []
      | Some b \<Rightarrow> concat (map (\<lambda>d. [BumpManifestVersion d b True, BuildAndCheckWheel d]) dirs))"

definition publish_events :: "env \<Rightarrow> bumpversion option \<Rightarrow> bool \<Rightarrow> string list \<Rightarrow> event list" where
  "publish_events env bumpversion dry_run dirs =
     (case SIMPLE_INDEX_ROOT env of
        None \<Rightarrow> []
      | Some root \<Rightarrow>
          if bumpversion \<noteq> None \<and> dirs \<noteq> [] \<and> root \<noteq> []
          then map (\<lambda>d. BuildAndPublishWheel d root dry_run) dirs else [])"

definition merge_prelude :: "string \<Rightarrow> nat \<Rightarrow> string \<Rightarrow> event list" where
  "merge_prelude merge_bot_branch pr target_branch =
     [GitCall [''git'', ''checkout'', target_branch],
      SubprocessCall
        [''git'', ''merge-base'', ''--is-ancestor'', target_branch, merge_bot_branch],
      GitCall
        [''git'', ''fetch'', ''origin'',
         ''refs/pull/'' @ str_nat pr @ ''/head:tmp-pr-'' @ str_nat pr],
      GitCall [''git'', ''checkout'', ''tmp-pr-'' @ str_nat pr]]"

definition push_events :: "string \<Rightarrow> string \<Rightarrow> string \<Rightarrow> bool \<Rightarrow> event list" where
  "push_events org repo target_branch dry_run =
     (if dry_run then
        [LogInfo (''DRY-RUN git push in '' @ org @ ''/'' @ repo @ ''@'' @ target_branch)]
      else
        [LogInfo (''git push in '' @ org @ ''/'' @ repo @ ''@'' @ target_branch),
         GitCall [''git'', ''push'', ''origin'', target_branch]])"

definition label_events :: "nat \<Rightarrow> gh_pr \<Rightarrow> bool \<Rightarrow> event list" where
  "label_events pr pr_obj dry_run =
     (if dry_run then
        [LogInfo (''DRY-RUN add '' @ LABEL_MERGED @ '' label to PR '' @ url pr_obj)]
      else
        [LogInfo (''add '' @ LABEL_MERGED @ '' label to PR '' @ url pr_obj),
         AddLabels pr LABEL_MERGED])"

definition merge_sequence ::
  "env \<Rightarrow> string \<Rightarrow> string \<Rightarrow> string \<Rightarrow> bool \<Rightarrow> nat \<Rightarrow> string \<Rightarrow> string \<Rightarrow> bumpversion option
     \<Rightarrow> string list \<Rightarrow> gh_pr \<Rightarrow> string \<Rightarrow> event list" where
  "merge_sequence env org repo merge_bot_branch dry_run pr target_branch username bumpversion
       dirs pr_obj merge_sha =
     merge_prelude merge_bot_branch pr target_branch
     @ [GitModifiedAddonDirs ''.'' target_branch,
        GitCall [''git'', ''checkout'', merge_bot_branch]]
     @ (if dirs \<noteq> [] then [MainBranchBotActions org repo target_branch] else [])
     @ bump_events bumpversion dirs
     @ [GitCall [''git'', ''checkout'', target_branch],
        GitCall
          [''git'', ''merge'', ''--no-ff'', ''--m'', merge_msg pr target_branch username,
           merge_bot_branch]]
     @ push_events org repo target_branch dry_run
     @ publish_events env bumpversion dry_run dirs
     @ [GitCall [''git'', ''push'', ''origin'', '':'' @ merge_bot_branch],
        GhPullRequest org repo pr,
        GitGetHeadSha,
        CreateComment pr (merged_comment merge_sha org target_branch),
        GhIssue pr]
     @ label_events pr pr_obj dry_run
     @ [ClosePR pr]"

text \<open>The events that precede a restart: the checkout, the race check and the log line.\<close>

definition race_prelude :: "string \<Rightarrow> string \<Rightarrow> event list" where
  "race_prelude merge_bot_branch target_branch =
     [GitCall [''git'', ''checkout'', target_branch],
      SubprocessCall
        [''git'', ''merge-base'', ''--is-ancestor'', target_branch, merge_bot_branch],
      LogInfo (rebasing_again_log merge_bot_branch target_branch)]"

text \<open>
  The git commands of \<^verbatim>\<open>merge_bot_start\<close> for a target branch \<open>t\<close> and a bot branch
  \<open>b\<close>, and the events a start for pull request \<open>pr\<close>, \<open>username\<close> and
  \<open>bumpversion\<close> may leave: its git commands are those of a base ref that the GitHub
  client answered for the pull request, and of the bot branch the codec makes for it.
\<close>

definition start_git_calls :: "nat \<Rightarrow> string \<Rightarrow> string \<Rightarrow> string list list" where
  "start_git_calls pr t b =
     [[''git'', ''fetch'', ''origin'', ''pull/'' @ str_nat pr @ ''/head:'' @ b],
      [''git'', ''checkout'', b],
      [''git'', ''rebase'', ''--autosquash'', t],
      [''git'', ''push'', ''origin'', '':'' @ b],
      [''git'', ''push'', ''origin'', b]]"

definition start_command ::
  "env \<Rightarrow> string \<Rightarrow> string \<Rightarrow> nat \<Rightarrow> string \<Rightarrow> bumpversion option \<Rightarrow> string list \<Rightarrow> bool" where
  "start_command env org repo pr username bumpversion c =
     (\<exists>h p. pull_request env h org repo pr = Inr p
        \<and> c \<in> set (start_git_calls pr (base_ref p)
                      (make_merge_bot_branch env pr (base_ref p) username bumpversion)))"

definition start_event ::
  "env \<Rightarrow> string \<Rightarrow> string \<Rightarrow> nat \<Rightarrow> string \<Rightarrow> bumpversion option \<Rightarrow> event \<Rightarrow> bool" where
  "start_event env org repo pr username bumpversion ev =
     (\<forall>c. ev = GitCall c \<longrightarrow> start_command env org repo pr username bumpversion c)"

subsection \<open>Reasoning about runs\<close>

text \<open>
  \<open>on_return m h Q\<close>: whenever \<open>m\<close>, started after \<open>h\<close>, returns normally, \<open>Q\<close> holds of
  the value and of the history. \<open>emits P m\<close>: however \<open>m\<close> ends, it only appends
  events, and all of them satisfy \<open>P\<close>.
\<close>

definition on_return :: "'a run \<Rightarrow> history \<Rightarrow> ('a \<Rightarrow> history \<Rightarrow> bool) \<Rightarrow> bool" where
  "on_return m h Q = (\<forall>x h1. m h = (Inr x, h1) \<longrightarrow> Q x h1)"

definition emits :: "(event \<Rightarrow> bool) \<Rightarrow> 'a run \<Rightarrow> bool" where
  "emits P m = (\<forall>h. \<exists>new. snd (m h) = h @ new \<and> list_all P new)"

subsection \<open>Example environments\<close>

text \<open>
  A codec in the style of \<^verbatim>\<open>version_branch\<close> and a decoder that knows three branch
  names, for pull request 42 of \<^verbatim>\<open>OCA/repo\<close> requested by \<^verbatim>\<open>alice\<close>: on branch
  \<^verbatim>\<open>12.0\<close> without a bump and with a minor bump, and on branch \<^verbatim>\<open>13.0\<close> without
  a bump.
\<close>

definition ex_make :: "nat \<Rightarrow> string \<Rightarrow> string \<Rightarrow> bumpversion option \<Rightarrow> string" where
  "ex_make pr target_branch username bumpversion =
     target_branch @ ''-ocabot-merge-pr-'' @ str_nat pr @ ''-by-'' @ username @ ''-bump-''
     @ (case bumpversion of
          None \<Rightarrow> ''no''
        | Some Patch \<Rightarrow> ''patch''
        | Some Minor \<Rightarrow> ''minor''
        | Some Major \<Rightarrow> ''major'')"

definition ex_branch :: string where
  "ex_branch = ''12.0-ocabot-merge-pr-42-by-alice-bump-no''"

definition ex_branch_minor :: string where
  "ex_branch_minor = ''12.0-ocabot-merge-pr-42-by-alice-bump-minor''"

definition ex_branch_13 :: string where
  "ex_branch_13 = ''13.0-ocabot-merge-pr-42-by-alice-bump-no''"

definition ex_parse :: "string \<Rightarrow> exn + nat \<times> string \<times> string \<times> bumpversion option" where
  "ex_parse b =
     (if b = ex_branch then Inr (42, ''12.0'', ''alice'', None)
      else if b = ex_branch_minor then Inr (42, ''12.0'', ''alice'', Some Minor)
      else if b = ex_branch_13 then Inr (42, ''13.0'', ''alice'', None)
      else Inl (OtherException ''not a merge bot branch''))"

definition ex_pr :: gh_pr where
  "ex_pr = \<lparr>base_ref = ''12.0'', url = ''https://api.github.com/repos/OCA/repo/pulls/42''\<rparr>"

text \<open>
  An environment in which every command and every request succeeds: the user may
  push, the only status is a successful legacy Travis one, the head of every clone is
  \<^verbatim>\<open>f00d\<close>, the target branch is an ancestor of the bot branch and no addon is
  modified.
\<close>

definition env_ok :: env where
  "env_ok =
     \<lparr>merge_bot_enabled = True,
      GITHUB_STATUS_IGNORED = ex_ignored,
      GITHUB_CHECK_SUITES_IGNORED = [],
      MERGE_BOT_INTRO_MESSAGES = [''On my way to merge this fine PR!''],
      SIMPLE_INDEX_ROOT = None,
      make_merge_bot_branch = ex_make,
      parse_merge_bot_branch = ex_parse,
      subprocess_run = (\<lambda>h c. (0, [])),
      effect = (\<lambda>h ev. None),
      random_source = (\<lambda>h. 0),
      git_get_head_sha = (\<lambda>h. Inr ''f00d''),
      git_user_can_push = (\<lambda>h org repo username. Inr True),
      pull_request = (\<lambda>h org repo pr. Inr ex_pr),
      commit_statuses = (\<lambda>h sha. Inr [st_travis_ok]),
      commit_check_suites = (\<lambda>h sha. Inr []),
      git_modified_addon_dirs = (\<lambda>h d target_branch. Inr [])\<rparr>"

text \<open>The target branch moved: the race check fails; the restart succeeds.\<close>

definition env_race :: env where
  "env_race =
     env_ok\<lparr>subprocess_run :=
       (\<lambda>h c. if c = [''git'', ''merge-base'', ''--is-ancestor'', ''12.0'', ex_branch]
              then (1, []) else (0, []))\<rparr>"

text \<open>The target branch moved and the rebase of the restart runs into a conflict.\<close>

definition env_race_conflict :: env where
  "env_race_conflict =
     env_ok\<lparr>subprocess_run :=
       (\<lambda>h c. if c = [''git'', ''merge-base'', ''--is-ancestor'', ''12.0'', ex_branch]
              then (1, [])
              else if c = [''git'', ''rebase'', ''--autosquash'', ''12.0'']
              then (1, ''CONFLICT (content): Merge conflict in README.rst'')
              else (0, []))\<rparr>"

text \<open>
  The target branch moved, and the pull request was retargeted to \<^verbatim>\<open>13.0\<close> in the
  meantime; the restart succeeds.
\<close>

definition env_race_retarget :: env where
  "env_race_retarget =
     env_race\<lparr>pull_request :=
       (\<lambda>h org repo pr. Inr (ex_pr\<lparr>base_ref := ''13.0''\<rparr>))\<rparr>"

text \<open>The rebase of a start runs into a conflict.\<close>

definition env_conflict :: env where
  "env_conflict =
     env_ok\<lparr>subprocess_run :=
       (\<lambda>h c. if c = [''git'', ''rebase'', ''--autosquash'', ''12.0'']
              then (1, ''CONFLICT (content): Merge conflict in README.rst'')
              else (0, []))\<rparr>"

text \<open>The user may not push.\<close>

definition env_denied :: env where
  "env_denied = env_ok\<lparr>git_user_can_push := (\<lambda>h org repo username. Inr False)\<rparr>"

text \<open>The lookup of the pull request fails.\<close>

definition env_no_pr :: env where
  "env_no_pr = env_ok\<lparr>pull_request := (\<lambda>h org repo pr. Inl (OtherException ''404 Not Found''))\<rparr>"

text \<open>
  A check failed, and the bot branch is already gone from the remote when its deletion
  is attempted.
\<close>

definition env_failed_gone :: env where
  "env_failed_gone =
     env_ok\<lparr>commit_statuses := (\<lambda>h sha. Inr [st_lint_failed]),
            subprocess_run :=
              (\<lambda>h c. if c = [''git'', ''push'', ''origin'', '':'' @ ex_branch]
                     then (1, ''error: unable to delete the branch: remote ref does not exist'')
                     else (0, []))\<rparr>"

text \<open>A wheel index is configured, and no addon is modified.\<close>

definition env_index :: env where
  "env_index = env_ok\<lparr>SIMPLE_INDEX_ROOT := Some ''/var/simple''\<rparr>"

text \<open>One addon is modified, and a wheel index is configured.\<close>

definition env_addon :: env where
  "env_addon =
     env_ok\<lparr>SIMPLE_INDEX_ROOT := Some ''/var/simple'',
            git_modified_addon_dirs := (\<lambda>h d target_branch. Inr [''addon_a''])\<rparr>"

text \<open>The events that the set of modified addons drives.\<close>

fun addon_event :: "event \<Rightarrow> bool" where
  "addon_event (MainBranchBotActions org repo target_branch) = True"
| "addon_event (BumpManifestVersion addon_dir b git_commit) = True"
| "addon_event (BuildAndCheckWheel addon_dir) = True"
| "addon_event (BuildAndPublishWheel addon_dir index_root dry_run) = True"
| "addon_event ev = False"

section \<open>Properties of the aggregator\<close>

lemmas kind_defs = status_success_def status_pending_def status_failure_def
  suite_success_def suite_incomplete_def suite_failure_def suite_blocking_def

lemmas ex_entry_defs = ex_ignored_def st_travis_ok_def st_runbot_failed_def st_lint_failed_def
  st_cla_pending_def cs_travis_incomplete_def cs_actions_incomplete_def cs_actions_failed_def
  cs_actions_ok_def cs_dependabot_failed_def

lemma legacy_travis_ok_Cons:
  "legacy_travis_ok ig (s # ss) =
     ((status_success ig s \<and> startswith (status_context s) ''continuous-integration/travis-ci'')
      \<or> legacy_travis_ok ig ss)"
  by (simp add: legacy_travis_ok_def)

lemma legacy_travis_ok_Nil: "legacy_travis_ok ig [] = False"
  by (simp add: legacy_travis_ok_def)

text \<open>The first loop runs to its end exactly when no status is pending or a failure.\<close>

lemma statuses_loop_complete:
  "\<forall>x\<in>set ss. \<not> status_pending ig x \<and> \<not> status_failure ig x \<Longrightarrow>
   statuses_loop ig ss (s0, ot0) =
     Inr (if \<exists>x\<in>set ss. status_success ig x then Some True else s0,
          ot0 \<or> legacy_travis_ok ig ss)"
  by (induction ss arbitrary: s0 ot0)
    (auto simp: kind_defs legacy_travis_ok_Cons legacy_travis_ok_Nil)

lemma statuses_loop_Inr:
  "statuses_loop ig ss (s0, ot0) = Inr (s, ot) \<Longrightarrow>
   (\<forall>x\<in>set ss. \<not> status_pending ig x \<and> \<not> status_failure ig x)"
  by (induction ss arbitrary: s0 ot0) (auto simp: kind_defs split: if_splits)

lemma statuses_loop_Inl:
  "statuses_loop ig ss st = Inl v \<Longrightarrow>
   (v = None \<and> (\<exists>x\<in>set ss. status_pending ig x))
   \<or> (v = Some False \<and> (\<exists>x\<in>set ss. status_failure ig x))"
  by (induction ig ss st rule: statuses_loop.induct) (auto simp: kind_defs split: if_splits)

lemma statuses_loop_pending_first:
  "\<forall>x\<in>set pre. \<not> status_failure ig x \<Longrightarrow> status_pending ig p \<Longrightarrow>
   statuses_loop ig (pre @ p # post) (s0, ot0) = Inl None"
  by (induction pre arbitrary: s0 ot0) (auto simp: kind_defs)

lemma statuses_loop_failure_first:
  "\<forall>x\<in>set pre. \<not> status_pending ig x \<Longrightarrow> status_failure ig f \<Longrightarrow>
   statuses_loop ig (pre @ f # post) (s0, ot0) = Inl (Some False)"
  by (induction pre arbitrary: s0 ot0) (auto simp: kind_defs)

lemma statuses_loop_all_ignored:
  "\<forall>s\<in>set ss. status_context s \<in> set ig \<Longrightarrow> statuses_loop ig ss st = Inr st"
  by (induction ig ss st rule: statuses_loop.induct) auto

text \<open>The same for the second loop, where \<open>ot\<close> is the value of \<^verbatim>\<open>old_travis\<close>.\<close>

lemma check_suites_loop_complete:
  "\<forall>x\<in>set cs. \<not> suite_blocking ig ot x \<and> \<not> suite_failure ig x \<Longrightarrow>
   check_suites_loop ig ot cs s0 =
     Inr (if \<exists>x\<in>set cs. suite_success ig x then Some True else s0)"
  by (induction cs arbitrary: s0) (auto simp: kind_defs)

lemma check_suites_loop_Inr:
  "check_suites_loop ig ot cs s0 = Inr s \<Longrightarrow>
   (\<forall>x\<in>set cs. \<not> suite_blocking ig ot x \<and> \<not> suite_failure ig x)"
  by (induction cs arbitrary: s0) (auto simp: kind_defs split: if_splits)

lemma check_suites_loop_Inl:
  "check_suites_loop ig ot cs s0 = Inl v \<Longrightarrow>
   (v = None \<and> (\<exists>x\<in>set cs. suite_blocking ig ot x))
   \<or> (v = Some False \<and> (\<exists>x\<in>set cs. suite_failure ig x))"
  by (induction cs arbitrary: s0) (auto simp: kind_defs split: if_splits)

lemma check_suites_loop_blocking_first:
  "\<forall>x\<in>set pre. \<not> suite_failure ig x \<Longrightarrow> suite_blocking ig ot c \<Longrightarrow>
   check_suites_loop ig ot (pre @ c # post) s0 = Inl None"
  by (induction pre arbitrary: s0) (auto simp: kind_defs)

lemma check_suites_loop_failure_first:
  "\<forall>x\<in>set pre. \<not> suite_blocking ig ot x \<Longrightarrow> suite_failure ig f \<Longrightarrow>
   check_suites_loop ig ot (pre @ f # post) s0 = Inl (Some False)"
  by (induction pre arbitrary: s0) (auto simp: kind_defs)

lemma check_suites_loop_all_ignored:
  "\<forall>c\<in>set cs. app_name c \<in> set ig \<Longrightarrow> check_suites_loop ig ot cs s = Inr s"
  by (induction cs) auto

lemma check_suites_loop_skip:
  "suite_incomplete ig c \<Longrightarrow> app_name c = ''Travis CI'' \<Longrightarrow>
   check_suites_loop ig True (pre @ c # post) s = check_suites_loop ig True (pre @ post) s"
  by (induction pre arbitrary: s) (auto simp: kind_defs)

text \<open>When the first loop runs to its end, \<^verbatim>\<open>old_travis\<close> is \<open>legacy_travis_ok\<close>.\<close>

lemma statuses_loop_Inr_old_travis:
  assumes "statuses_loop sig statuses (None, False) = Inr (s, ot)"
  shows "ot = legacy_travis_ok sig statuses"
proof -
  from assms have "\<forall>x\<in>set statuses. \<not> status_pending sig x \<and> \<not> status_failure sig x"
    by (rule statuses_loop_Inr)
  from statuses_loop_complete [OF this, of None False] assms show ?thesis by simp
qed

lemma commit_success_cases:
  obtains (status_return) v where "statuses_loop sig statuses (None, False) = Inl v"
      "commit_success sig cig statuses suites = v"
  | (suite_return) s v where
      "statuses_loop sig statuses (None, False) = Inr (s, legacy_travis_ok sig statuses)"
      "check_suites_loop cig (legacy_travis_ok sig statuses) suites s = Inl v"
      "commit_success sig cig statuses suites = v"
  | (completed) s s' where
      "statuses_loop sig statuses (None, False) = Inr (s, legacy_travis_ok sig statuses)"
      "check_suites_loop cig (legacy_travis_ok sig statuses) suites s = Inr s'"
      "commit_success sig cig statuses suites = s'"
proof (cases "statuses_loop sig statuses (None, False)")
  case (Inl v)
  then show ?thesis by (auto simp: commit_success_def intro: status_return)
next
  case (Inr st)
  obtain s ot where st: "st = (s, ot)" by (cases st)
  with Inr have ot: "ot = legacy_travis_ok sig statuses"
    using statuses_loop_Inr_old_travis by blast
  show ?thesis
  proof (cases "check_suites_loop cig ot suites s")
    case (Inl v)
    with Inr st ot show ?thesis by (auto simp: commit_success_def intro: suite_return)
  next
    case Inr2: (Inr s')
    with Inr st ot show ?thesis by (auto simp: commit_success_def intro: completed)
  qed
qed

lemma commit_success_not_True_pending:
  assumes "(\<exists>s\<in>set statuses. status_pending sig s)
         \<or> (\<exists>c\<in>set suites. suite_blocking cig (legacy_travis_ok sig statuses) c)"
  shows "commit_success sig cig statuses suites \<noteq> Some True"
proof (cases rule: commit_success_cases [of sig statuses cig suites])
  case (status_return v)
  with statuses_loop_Inl [OF status_return(1)] show ?thesis by auto
next
  case (suite_return s v)
  with check_suites_loop_Inl [OF suite_return(2)] show ?thesis by auto
next
  case (completed s s')
  with statuses_loop_Inr [OF completed(1)] check_suites_loop_Inr [OF completed(2)] assms
  show ?thesis by blast
qed

lemma commit_success_not_True_failure:
  assumes "(\<exists>s\<in>set statuses. status_failure sig s) \<or> (\<exists>c\<in>set suites. suite_failure cig c)"
  shows "commit_success sig cig statuses suites \<noteq> Some True"
proof (cases rule: commit_success_cases [of sig statuses cig suites])
  case (status_return v)
  with statuses_loop_Inl [OF status_return(1)] show ?thesis by auto
next
  case (suite_return s v)
  with check_suites_loop_Inl [OF suite_return(2)] show ?thesis by auto
next
  case (completed s s')
  with statuses_loop_Inr [OF completed(1)] check_suites_loop_Inr [OF completed(2)] assms
  show ?thesis by blast
qed

lemma commit_success_pending_status_first:
  assumes "i < length statuses" "status_pending sig (statuses ! i)"
    "\<forall>s\<in>set (take i statuses). \<not> status_failure sig s"
  shows "commit_success sig cig statuses suites = None"
proof -
  have "statuses = take i statuses @ statuses ! i # drop (Suc i) statuses"
    using assms(1) by (simp add: id_take_nth_drop)
  then have "statuses_loop sig statuses (None, False) = Inl None"
    using statuses_loop_pending_first
      [OF assms(3) assms(2), where post = "drop (Suc i) statuses" and ?s0.0 = None
         and ?ot0.0 = False]
    by simp
  then show ?thesis by (simp add: commit_success_def)
qed

lemma commit_success_failure_status_first:
  assumes "i < length statuses" "status_failure sig (statuses ! i)"
    "\<forall>s\<in>set (take i statuses). \<not> status_pending sig s"
  shows "commit_success sig cig statuses suites = Some False"
proof -
  have "statuses = take i statuses @ statuses ! i # drop (Suc i) statuses"
    using assms(1) by (simp add: id_take_nth_drop)
  then have "statuses_loop sig statuses (None, False) = Inl (Some False)"
    using statuses_loop_failure_first
      [OF assms(3) assms(2), where post = "drop (Suc i) statuses" and ?s0.0 = None
         and ?ot0.0 = False]
    by simp
  then show ?thesis by (simp add: commit_success_def)
qed

lemma commit_success_blocking_suite_first:
  assumes "\<forall>s\<in>set statuses. \<not> status_failure sig s"
    "k < length suites" "suite_blocking cig (legacy_travis_ok sig statuses) (suites ! k)"
    "\<forall>c\<in>set (take k suites). \<not> suite_failure cig c"
  shows "commit_success sig cig statuses suites = None"
proof -
  have split: "suites = take k suites @ suites ! k # drop (Suc k) suites"
    using assms(2) by (simp add: id_take_nth_drop)
  have loop: "check_suites_loop cig (legacy_travis_ok sig statuses) suites s = Inl None" for s
    using check_suites_loop_blocking_first
      [OF assms(4) assms(3), where post = "drop (Suc k) suites" and ?s0.0 = s] split
    by simp
  show ?thesis
  proof (cases rule: commit_success_cases [of sig statuses cig suites])
    case (status_return v)
    with statuses_loop_Inl [OF status_return(1)] assms(1) show ?thesis by auto
  next
    case (suite_return s v)
    with loop show ?thesis by simp
  next
    case (completed s s')
    with loop show ?thesis by simp
  qed
qed

lemma commit_success_failure_suite_first:
  assumes "\<forall>s\<in>set statuses. \<not> status_pending sig s"
    "k < length suites" "suite_failure cig (suites ! k)"
    "\<forall>c\<in>set (take k suites). \<not> suite_blocking cig (legacy_travis_ok sig statuses) c"
  shows "commit_success sig cig statuses suites = Some False"
proof -
  have split: "suites = take k suites @ suites ! k # drop (Suc k) suites"
    using assms(2) by (simp add: id_take_nth_drop)
  have loop: "check_suites_loop cig (legacy_travis_ok sig statuses) suites s = Inl (Some False)"
    for s
    using check_suites_loop_failure_first
      [OF assms(4) assms(3), where post = "drop (Suc k) suites" and ?s0.0 = s] split
    by simp
  show ?thesis
  proof (cases rule: commit_success_cases [of sig statuses cig suites])
    case (status_return v)
    with statuses_loop_Inl [OF status_return(1)] assms(1) show ?thesis by auto
  next
    case (suite_return s v)
    with loop show ?thesis by simp
  next
    case (completed s s')
    with loop show ?thesis by simp
  qed
qed

lemma commit_success_travis_skip:
  assumes "suite_incomplete cig c" "app_name c = ''Travis CI''" "legacy_travis_ok sig statuses"
  shows "commit_success sig cig statuses (pre @ c # post)
       = commit_success sig cig statuses (pre @ post)"
proof (cases "statuses_loop sig statuses (None, False)")
  case (Inl v)
  then show ?thesis by (simp add: commit_success_def)
next
  case (Inr st)
  obtain s ot where st: "st = (s, ot)" by (cases st)
  with Inr assms(3) have "ot = True"
    using statuses_loop_Inr_old_travis by blast
  with Inr st check_suites_loop_skip [OF assms(1,2)] show ?thesis
    by (simp add: commit_success_def)
qed

subsection \<open>Pending entries\<close>

text \<open>
  Against claim C2 as it is written: with no ignore list, a failed status followed by a
  pending one gives Failure, although the input holds a pending entry that is not
  ignored.
\<close>

theorem pending_after_failure_counterexample:
  "status_pending [] st_cla_pending
   \<and> commit_success [] [] [st_lint_failed, st_cla_pending] [] = Some False"
  by (simp add: commit_success_def kind_defs ex_entry_defs)

text \<open>
  Claim C2, amended. An input that holds a pending status that is not ignored, or an
  incomplete check suite that is not ignored and not covered by the Travis exception,
  never gets Success. Its verdict is Pending when no failure is evaluated before that
  entry: for a pending status at position \<open>i\<close>, no failed status before \<open>i\<close>; for a
  blocking check suite at position \<open>k\<close>, no failed status at all and no failed check
  suite before \<open>k\<close>. When a failure is evaluated first, the verdict is Failure: a
  failed status at position \<open>j\<close> with no pending status before \<open>j\<close>, or a failed
  check suite at position \<open>l\<close> with no pending status at all and no blocking check
  suite before \<open>l\<close>. The exception: an incomplete \<^verbatim>\<open>Travis CI\<close> check suite, when a
  legacy Travis status that is not ignored reported success, is skipped, so that the
  verdict is the one of the input without that entry.
\<close>

theorem pending_entry_decides:
  "((\<exists>s\<in>set statuses. status_pending sig s)
      \<or> (\<exists>c\<in>set suites. suite_blocking cig (legacy_travis_ok sig statuses) c)
     \<longrightarrow> commit_success sig cig statuses suites \<noteq> Some True)
   \<and> (i < length statuses \<and> status_pending sig (statuses ! i)
        \<and> (\<forall>s\<in>set (take i statuses). \<not> status_failure sig s)
     \<longrightarrow> commit_success sig cig statuses suites = None)
   \<and> ((\<forall>s\<in>set statuses. \<not> status_failure sig s)
        \<and> k < length suites \<and> suite_blocking cig (legacy_travis_ok sig statuses) (suites ! k)
        \<and> (\<forall>c\<in>set (take k suites). \<not> suite_failure cig c)
     \<longrightarrow> commit_success sig cig statuses suites = None)
   \<and> (j < length statuses \<and> status_failure sig (statuses ! j)
        \<and> (\<forall>s\<in>set (take j statuses). \<not> status_pending sig s)
     \<longrightarrow> commit_success sig cig statuses suites = Some False)
   \<and> ((\<forall>s\<in>set statuses. \<not> status_pending sig s)
        \<and> l < length suites \<and> suite_failure cig (suites ! l)
        \<and> (\<forall>c\<in>set (take l suites).
              \<not> suite_blocking cig (legacy_travis_ok sig statuses) c)
     \<longrightarrow> commit_success sig cig statuses suites = Some False)
   \<and> (suite_incomplete cig c \<and> app_name c = ''Travis CI'' \<and> legacy_travis_ok sig statuses
     \<longrightarrow> commit_success sig cig statuses (pre @ c # post)
         = commit_success sig cig statuses (pre @ post))"
  using commit_success_not_True_pending [of statuses sig suites cig]
    commit_success_pending_status_first [of i statuses sig cig suites]
    commit_success_blocking_suite_first [of statuses sig k suites cig]
    commit_success_failure_status_first [of j statuses sig cig suites]
    commit_success_failure_suite_first [of statuses sig l suites cig]
    commit_success_travis_skip [of cig c sig statuses pre post]
  by blast

text \<open>
  The theorem at work. A pending status after a success and an ignored failure gives
  Pending; an incomplete check suite of another application after a successful status
  gives Pending; a failed status before a pending one, and a failed check suite before
  an incomplete one, give Failure; an incomplete \<^verbatim>\<open>Travis CI\<close> check suite after a
  successful legacy Travis status is skipped and the verdict is Success.
\<close>

theorem pending_entry_decides_witness:
  "status_pending ex_ignored ([st_travis_ok, st_runbot_failed, st_cla_pending] ! 2)
   \<and> commit_success ex_ignored [] [st_travis_ok, st_runbot_failed, st_cla_pending] [] = None
   \<and> status_failure ex_ignored ([st_lint_failed, st_cla_pending] ! 0)
   \<and> commit_success ex_ignored [] [st_lint_failed, st_cla_pending] [] = Some False
   \<and> suite_failure [] ([cs_actions_failed, cs_actions_incomplete] ! 0)
   \<and> commit_success ex_ignored [] [st_travis_ok] [cs_actions_failed, cs_actions_incomplete]
       = Some False
   \<and> suite_blocking [] (legacy_travis_ok ex_ignored [st_travis_ok])
        ([cs_actions_ok, cs_actions_incomplete] ! 1)
   \<and> commit_success ex_ignored [] [st_travis_ok] [cs_actions_ok, cs_actions_incomplete] = None
   \<and> legacy_travis_ok ex_ignored [st_travis_ok]
   \<and> commit_success ex_ignored [] [st_travis_ok] [cs_actions_ok, cs_travis_incomplete]
       = Some True"
proof -
  let ?sts = "[st_travis_ok, st_runbot_failed, st_cla_pending]"
  let ?cs = "[cs_actions_ok, cs_actions_incomplete]"
  have h1: "2 < length ?sts \<and> status_pending ex_ignored (?sts ! 2)
            \<and> (\<forall>s\<in>set (take 2 ?sts). \<not> status_failure ex_ignored s)"
    by (simp add: kind_defs ex_entry_defs)
  have c1: "commit_success ex_ignored [] ?sts [] = None"
    using pending_entry_decides
      [where statuses = ?sts and sig = ex_ignored and suites = "[]" and cig = "[]" and i = 2] h1 by blast
  have h2: "(\<forall>s\<in>set [st_travis_ok]. \<not> status_failure ex_ignored s)
            \<and> 1 < length ?cs
            \<and> suite_blocking [] (legacy_travis_ok ex_ignored [st_travis_ok]) (?cs ! 1)
            \<and> (\<forall>c\<in>set (take 1 ?cs). \<not> suite_failure [] c)"
    by (simp add: kind_defs ex_entry_defs)
  have c2: "commit_success ex_ignored [] [st_travis_ok] ?cs = None"
    using pending_entry_decides
      [where statuses = "[st_travis_ok]" and sig = ex_ignored and suites = ?cs and cig = "[]"
         and k = 1] h2 by blast
  have h3: "suite_incomplete [] cs_travis_incomplete \<and> app_name cs_travis_incomplete = ''Travis CI''
            \<and> legacy_travis_ok ex_ignored [st_travis_ok]"
    by (simp add: kind_defs ex_entry_defs legacy_travis_ok_def startswith_def)
  have "commit_success ex_ignored [] [st_travis_ok] ([cs_actions_ok] @ cs_travis_incomplete # [])
      = commit_success ex_ignored [] [st_travis_ok] ([cs_actions_ok] @ [])"
    using pending_entry_decides
      [where statuses = "[st_travis_ok]" and sig = ex_ignored and cig = "[]"
         and c = cs_travis_incomplete and pre = "[cs_actions_ok]" and post = "[]"] h3
    by blast
  moreover have "commit_success ex_ignored [] [st_travis_ok] [cs_actions_ok] = Some True"
    by (simp add: commit_success_def ex_entry_defs startswith_def)
  ultimately have c3:
    "commit_success ex_ignored [] [st_travis_ok] [cs_actions_ok, cs_travis_incomplete] = Some True"
    by simp
  have h4: "0 < length [st_lint_failed, st_cla_pending]
            \<and> status_failure ex_ignored ([st_lint_failed, st_cla_pending] ! 0)
            \<and> (\<forall>s\<in>set (take 0 [st_lint_failed, st_cla_pending]). \<not> status_pending ex_ignored s)"
    by (simp add: kind_defs ex_entry_defs)
  have c4: "commit_success ex_ignored [] [st_lint_failed, st_cla_pending] [] = Some False"
    using pending_entry_decides
      [where statuses = "[st_lint_failed, st_cla_pending]" and sig = ex_ignored
         and suites = "[]" and cig = "[]" and j = 0] h4
    by blast
  let ?cf = "[cs_actions_failed, cs_actions_incomplete]"
  have h5: "(\<forall>s\<in>set [st_travis_ok]. \<not> status_pending ex_ignored s)
            \<and> 0 < length ?cf \<and> suite_failure [] (?cf ! 0)
            \<and> (\<forall>c\<in>set (take 0 ?cf).
                  \<not> suite_blocking [] (legacy_travis_ok ex_ignored [st_travis_ok]) c)"
    by (simp add: kind_defs ex_entry_defs)
  have c5: "commit_success ex_ignored [] [st_travis_ok] ?cf = Some False"
    using pending_entry_decides
      [where statuses = "[st_travis_ok]" and sig = ex_ignored and suites = ?cf and cig = "[]"
         and l = 0] h5
    by blast
  from h1 c1 h2 c2 h3 c3 h4 c4 h5 c5 show ?thesis by blast
qed

subsection \<open>Failed entries\<close>

text \<open>
  Against claim C3 as it is written: with no ignore list, a pending status followed by
  a failed one gives Pending, although the input holds a failure that is not ignored.
\<close>

theorem failure_after_pending_counterexample:
  "status_failure [] st_lint_failed
   \<and> commit_success [] [] [st_cla_pending, st_lint_failed] [] = None"
  by (simp add: commit_success_def kind_defs ex_entry_defs)

text \<open>
  Claim C3, amended. An input that holds a failed status or a failed check suite, not
  ignored, never gets Success. Its verdict is Failure when no pending entry is evaluated
  before that entry: for a failed status at position \<open>i\<close>, no pending status before
  \<open>i\<close>; for a failed check suite at position \<open>k\<close>, no pending status at all and no
  blocking incomplete check suite before \<open>k\<close>. When a pending entry is evaluated
  first, the verdict is Pending: a pending status at position \<open>j\<close> with no failed
  status before \<open>j\<close>, or a blocking incomplete check suite at position \<open>l\<close> with no
  failed status at all and no failed check suite before \<open>l\<close>.
\<close>

theorem failure_entry_decides:
  "((\<exists>s\<in>set statuses. status_failure sig s) \<or> (\<exists>c\<in>set suites. suite_failure cig c)
     \<longrightarrow> commit_success sig cig statuses suites \<noteq> Some True)
   \<and> (i < length statuses \<and> status_failure sig (statuses ! i)
        \<and> (\<forall>s\<in>set (take i statuses). \<not> status_pending sig s)
     \<longrightarrow> commit_success sig cig statuses suites = Some False)
   \<and> ((\<forall>s\<in>set statuses. \<not> status_pending sig s)
        \<and> k < length suites \<and> suite_failure cig (suites ! k)
        \<and> (\<forall>c\<in>set (take k suites).
              \<not> suite_blocking cig (legacy_travis_ok sig statuses) c)
     \<longrightarrow> commit_success sig cig statuses suites = Some False)
   \<and> (j < length statuses \<and> status_pending sig (statuses ! j)
        \<and> (\<forall>s\<in>set (take j statuses). \<not> status_failure sig s)
     \<longrightarrow> commit_success sig cig statuses suites = None)
   \<and> ((\<forall>s\<in>set statuses. \<not> status_failure sig s)
        \<and> l < length suites \<and> suite_blocking cig (legacy_travis_ok sig statuses) (suites ! l)
        \<and> (\<forall>c\<in>set (take l suites). \<not> suite_failure cig c)
     \<longrightarrow> commit_success sig cig statuses suites = None)"
  using commit_success_not_True_failure [of statuses sig suites cig]
    commit_success_failure_status_first [of i statuses sig cig suites]
    commit_success_failure_suite_first [of statuses sig k suites cig]
    commit_success_pending_status_first [of j statuses sig cig suites]
    commit_success_blocking_suite_first [of statuses sig l suites cig]
  by blast

theorem failure_entry_decides_witness:
  "status_failure ex_ignored ([st_travis_ok, st_lint_failed, st_cla_pending] ! 1)
   \<and> commit_success ex_ignored [] [st_travis_ok, st_lint_failed, st_cla_pending] [cs_actions_ok]
       = Some False
   \<and> suite_failure [''Dependabot'']
        ([cs_dependabot_failed, cs_travis_incomplete, cs_actions_failed] ! 2)
   \<and> commit_success ex_ignored [''Dependabot''] [st_travis_ok]
        [cs_dependabot_failed, cs_travis_incomplete, cs_actions_failed] = Some False
   \<and> status_pending ex_ignored ([st_cla_pending, st_lint_failed] ! 0)
   \<and> commit_success ex_ignored [] [st_cla_pending, st_lint_failed] [] = None
   \<and> suite_blocking [] (legacy_travis_ok ex_ignored [st_travis_ok])
        ([cs_actions_incomplete, cs_actions_failed] ! 0)
   \<and> commit_success ex_ignored [] [st_travis_ok] [cs_actions_incomplete, cs_actions_failed]
       = None"
proof -
  let ?sts = "[st_travis_ok, st_lint_failed, st_cla_pending]"
  let ?cs = "[cs_dependabot_failed, cs_travis_incomplete, cs_actions_failed]"
  have h1: "1 < length ?sts \<and> status_failure ex_ignored (?sts ! 1)
            \<and> (\<forall>s\<in>set (take 1 ?sts). \<not> status_pending ex_ignored s)"
    by (simp add: kind_defs ex_entry_defs)
  have c1: "commit_success ex_ignored [] ?sts [cs_actions_ok] = Some False"
    using failure_entry_decides
      [where statuses = ?sts and sig = ex_ignored and suites = "[cs_actions_ok]" and cig = "[]"
         and i = 1] h1 by blast
  have h2: "(\<forall>s\<in>set [st_travis_ok]. \<not> status_pending ex_ignored s)
            \<and> 2 < length ?cs \<and> suite_failure [''Dependabot''] (?cs ! 2)
            \<and> (\<forall>c\<in>set (take 2 ?cs).
                  \<not> suite_blocking [''Dependabot''] (legacy_travis_ok ex_ignored [st_travis_ok]) c)"
    by (simp add: kind_defs ex_entry_defs legacy_travis_ok_def startswith_def
        numeral_2_eq_2)
  have c2: "commit_success ex_ignored [''Dependabot''] [st_travis_ok] ?cs = Some False"
    using failure_entry_decides
      [where statuses = "[st_travis_ok]" and sig = ex_ignored and suites = ?cs
         and cig = "[''Dependabot'']" and k = 2] h2
    by blast
  have h3: "0 < length [st_cla_pending, st_lint_failed]
            \<and> status_pending ex_ignored ([st_cla_pending, st_lint_failed] ! 0)
            \<and> (\<forall>s\<in>set (take 0 [st_cla_pending, st_lint_failed]). \<not> status_failure ex_ignored s)"
    by (simp add: kind_defs ex_entry_defs)
  have c3: "commit_success ex_ignored [] [st_cla_pending, st_lint_failed] [] = None"
    using failure_entry_decides
      [where statuses = "[st_cla_pending, st_lint_failed]" and sig = ex_ignored
         and suites = "[]" and cig = "[]" and j = 0] h3
    by blast
  let ?ci = "[cs_actions_incomplete, cs_actions_failed]"
  have h4: "(\<forall>s\<in>set [st_travis_ok]. \<not> status_failure ex_ignored s)
            \<and> 0 < length ?ci
            \<and> suite_blocking [] (legacy_travis_ok ex_ignored [st_travis_ok]) (?ci ! 0)
            \<and> (\<forall>c\<in>set (take 0 ?ci). \<not> suite_failure [] c)"
    by (simp add: kind_defs ex_entry_defs)
  have c4: "commit_success ex_ignored [] [st_travis_ok] ?ci = None"
    using failure_entry_decides
      [where statuses = "[st_travis_ok]" and sig = ex_ignored and suites = ?ci and cig = "[]"
         and l = 0] h4
    by blast
  from h1 c1 h2 c2 h3 c3 h4 c4 show ?thesis by blast
qed

subsection \<open>Loops that run to their end\<close>

text \<open>
  Claim C4. When every status and every check suite is ignored (in particular when
  there is none), the verdict is Pending. More generally, when neither loop returns,
  the verdict is the final value of \<^verbatim>\<open>success\<close>: Success if a status or a check suite
  that is not ignored reported success, Pending otherwise, and never Failure.
\<close>

theorem completed_loops_never_fail:
  "((\<forall>s\<in>set statuses. status_context s \<in> set sig) \<and> (\<forall>c\<in>set suites. app_name c \<in> set cig)
     \<longrightarrow> commit_success sig cig statuses suites = None)
   \<and> (statuses_loop sig statuses (None, False) = Inr (success, old_travis)
        \<and> check_suites_loop cig old_travis suites success = Inr success'
     \<longrightarrow> commit_success sig cig statuses suites = success'
        \<and> success' = (if (\<exists>s\<in>set statuses. status_success sig s)
                          \<or> (\<exists>c\<in>set suites. suite_success cig c)
                       then Some True else None)
        \<and> success' \<noteq> Some False)"
proof (intro conjI impI)
  assume "(\<forall>s\<in>set statuses. status_context s \<in> set sig)
        \<and> (\<forall>c\<in>set suites. app_name c \<in> set cig)"
  then show "commit_success sig cig statuses suites = None"
    by (simp add: commit_success_def statuses_loop_all_ignored check_suites_loop_all_ignored)
next
  assume a: "statuses_loop sig statuses (None, False) = Inr (success, old_travis)
        \<and> check_suites_loop cig old_travis suites success = Inr success'"
  then show "commit_success sig cig statuses suites = success'"
    by (simp add: commit_success_def)
  from a have n1: "\<forall>x\<in>set statuses. \<not> status_pending sig x \<and> \<not> status_failure sig x"
    using statuses_loop_Inr by blast
  from a have n2: "\<forall>x\<in>set suites. \<not> suite_blocking cig old_travis x \<and> \<not> suite_failure cig x"
    using check_suites_loop_Inr by blast
  from statuses_loop_complete [OF n1, of None False] a
  have s: "success = (if \<exists>x\<in>set statuses. status_success sig x then Some True else None)"
    by simp
  from check_suites_loop_complete [OF n2, of success] a
  have s': "success' = (if \<exists>x\<in>set suites. suite_success cig x then Some True else success)"
    by simp
  from s s' show "success' = (if (\<exists>s\<in>set statuses. status_success sig s)
                          \<or> (\<exists>c\<in>set suites. suite_success cig c)
                       then Some True else None)" by auto
  then show "success' \<noteq> Some False" by auto
qed

text \<open>
  The theorem at work: an input whose only entries are ignored failures is Pending, and
  so is the empty input; a run of both loops to their end over a successful status and
  an ignored failed check suite is Success.
\<close>

theorem completed_loops_never_fail_witness:
  "commit_success ex_ignored [''Dependabot''] [st_runbot_failed] [cs_dependabot_failed] = None
   \<and> commit_success ex_ignored [''Dependabot''] [] [] = None
   \<and> statuses_loop ex_ignored [st_travis_ok] (None, False) = Inr (Some True, True)
   \<and> check_suites_loop [''Dependabot''] True [cs_dependabot_failed] (Some True) = Inr (Some True)
   \<and> commit_success ex_ignored [''Dependabot''] [st_travis_ok] [cs_dependabot_failed]
       = Some True"
proof -
  have h1: "(\<forall>s\<in>set [st_runbot_failed]. status_context s \<in> set ex_ignored)
            \<and> (\<forall>c\<in>set [cs_dependabot_failed]. app_name c \<in> set [''Dependabot''])"
    by (simp add: ex_entry_defs)
  have c1: "commit_success ex_ignored [''Dependabot''] [st_runbot_failed] [cs_dependabot_failed]
            = None"
    using completed_loops_never_fail
      [of "[st_runbot_failed]" ex_ignored "[cs_dependabot_failed]" "[''Dependabot'']"] h1
    by blast
  have h2: "(\<forall>s\<in>set ([]::status list). status_context s \<in> set ex_ignored)
            \<and> (\<forall>c\<in>set ([]::check_suite list). app_name c \<in> set [''Dependabot''])"
    by simp
  have c2: "commit_success ex_ignored [''Dependabot''] [] [] = None"
    using completed_loops_never_fail [of "[]" ex_ignored "[]" "[''Dependabot'']"] h2
    by blast
  have h3: "statuses_loop ex_ignored [st_travis_ok] (None, False) = Inr (Some True, True)
            \<and> check_suites_loop [''Dependabot''] True [cs_dependabot_failed] (Some True)
                = Inr (Some True)"
    by (simp add: ex_entry_defs startswith_def)
  have c3: "commit_success ex_ignored [''Dependabot''] [st_travis_ok] [cs_dependabot_failed]
            = Some True"
    using completed_loops_never_fail
      [of "[st_travis_ok]" ex_ignored "[cs_dependabot_failed]" "[''Dependabot'']"
          "Some True" True "Some True"] h3
    by blast
  from c1 c2 h3 c3 show ?thesis by blast
qed

section \<open>Properties of the orchestration\<close>

subsection \<open>Rules for runs that return\<close>

lemma on_returnD: "on_return m h Q \<Longrightarrow> m h = (Inr x, h1) \<Longrightarrow> Q x h1"
  by (simp add: on_return_def)

lemma on_return_bnd: "on_return m h (\<lambda>x h1. on_return (f x) h1 Q) \<Longrightarrow> on_return (bnd m f) h Q"
  by (auto simp: on_return_def bnd_def split: prod.splits sum.splits)

lemma on_return_ret: "Q x h \<Longrightarrow> on_return (ret x) h Q"
  by (simp add: on_return_def ret_def)

lemma on_return_lift: "(\<And>x. r = Inr x \<Longrightarrow> Q x h) \<Longrightarrow> on_return (lift r) h Q"
  by (simp add: on_return_def lift_def)

lemma on_return_log_info: "Q () (h @ [LogInfo s]) \<Longrightarrow> on_return (log_info s) h Q"
  by (simp add: on_return_def log_info_def)

lemma on_return_git_call: "Q () (h @ [GitCall c]) \<Longrightarrow> on_return (git_call env c) h Q"
  by (auto simp: on_return_def git_call_def split: prod.splits if_splits)

lemma on_return_subprocess_call:
  "Q (fst (subprocess_run env h c)) (h @ [SubprocessCall c]) \<Longrightarrow>
   on_return (subprocess_call env c) h Q"
  by (simp add: on_return_def subprocess_call_def)

lemma on_return_effect_call: "Q () (h @ [ev]) \<Longrightarrow> on_return (effect_call env ev) h Q"
  by (auto simp: on_return_def effect_call_def)

lemma on_return_ask:
  "(\<And>y. oracle h = Inr y \<Longrightarrow> Q y (h @ [ev])) \<Longrightarrow> on_return (ask oracle ev) h Q"
  by (simp add: on_return_def ask_def)

lemma on_return_if:
  "(b \<Longrightarrow> on_return m1 h Q) \<Longrightarrow> (\<not> b \<Longrightarrow> on_return m2 h Q) \<Longrightarrow>
   on_return (if b then m1 else m2) h Q"
  by simp

lemma on_return_case_option:
  "(x = None \<Longrightarrow> on_return m1 h Q) \<Longrightarrow> (\<And>y. x = Some y \<Longrightarrow> on_return (m2 y) h Q) \<Longrightarrow>
   on_return (case x of None \<Rightarrow> m1 | Some y \<Rightarrow> m2 y) h Q"
  by (simp split: option.splits)

lemma on_return_git_delete_branch:
  "Q () (h @ [GitCall [''git'', ''push'', remote, '':'' @ b]]) \<Longrightarrow>
   on_return (git_delete_branch env remote b) h Q"
  by (auto simp: on_return_def git_delete_branch_def try_except_def git_call_def ret_def
      raise_def split: prod.splits if_splits sum.splits exn.splits)

lemma on_return_any: "(\<And>x h1. Q x h1) \<Longrightarrow> on_return m h Q"
  by (simp add: on_return_def)

lemmas on_return_rules = on_return_bnd on_return_ret on_return_lift on_return_log_info
  on_return_git_call on_return_subprocess_call on_return_effect_call on_return_ask
  on_return_if on_return_case_option on_return_git_delete_branch

text \<open>A loop that returns has run all its iterations.\<close>

lemma bump_loop_Inr:
  "fst (bump_loop env b ds h) = Inr u \<Longrightarrow> snd (bump_loop env b ds h) = h @ bump_events b ds"
proof (induction ds arbitrary: h)
  case Nil
  then show ?case by (cases b) (simp_all add: bump_events_def ret_def)
next
  case (Cons d ds)
  show ?case
  proof (cases b)
    case None
    with Cons.prems have "fst (bump_loop env b ds h) = Inr u"
      by (simp add: bnd_def ret_def)
    from Cons.IH [OF this] None show ?thesis
      by (simp add: bump_events_def bnd_def ret_def)
  next
    case (Some a)
    let ?h2 = "h @ [BumpManifestVersion d a True, BuildAndCheckWheel d]"
    from Some Cons.prems
    have ok: "effect env h (BumpManifestVersion d a True) = None"
      "effect env (h @ [BumpManifestVersion d a True]) (BuildAndCheckWheel d) = None"
      by (auto simp: bnd_def effect_call_def split: option.splits)
    with Some Cons.prems have "fst (bump_loop env b ds ?h2) = Inr u"
      by (simp add: bnd_def effect_call_def)
    from Cons.IH [OF this] Some ok show ?thesis
      by (simp add: bump_events_def bnd_def effect_call_def)
  qed
qed

lemma publish_loop_Inr:
  "fst (publish_loop env root dry ds h) = Inr u \<Longrightarrow>
   snd (publish_loop env root dry ds h) = h @ map (\<lambda>d. BuildAndPublishWheel d root dry) ds"
proof (induction ds arbitrary: h)
  case Nil
  then show ?case by (simp add: ret_def)
next
  case (Cons d ds)
  from Cons.prems have ok: "effect env h (BuildAndPublishWheel d root dry) = None"
    by (auto simp: bnd_def effect_call_def split: option.splits)
  with Cons.prems
  have "fst (publish_loop env root dry ds (h @ [BuildAndPublishWheel d root dry])) = Inr u"
    by (simp add: bnd_def effect_call_def)
  from Cons.IH [OF this] ok show ?case
    by (simp add: bnd_def effect_call_def)
qed

lemma on_return_bump_loop:
  "Q () (h @ bump_events b ds) \<Longrightarrow> on_return (bump_loop env b ds) h Q"
  using bump_loop_Inr [of env b ds h] by (auto simp: on_return_def)

lemma on_return_publish_loop:
  "Q () (h @ map (\<lambda>d. BuildAndPublishWheel d root dry) ds) \<Longrightarrow>
   on_return (publish_loop env root dry ds) h Q"
  using publish_loop_Inr [of env root dry ds h] by (auto simp: on_return_def)

subsection \<open>A finalization that merges leaves the merge sequence\<close>

lemma merge_sequenceI:
  "git_modified_addon_dirs env hp ''.'' target = Inr dirs \<Longrightarrow>
   pull_request env h2 org repo pr = Inr pr_obj \<Longrightarrow>
   git_get_head_sha env h3 = Inr sha \<Longrightarrow>
   hp = h @ merge_prelude mbb pr target \<Longrightarrow>
   h' = h @ merge_sequence env org repo mbb dry pr target user bump dirs pr_obj sha \<Longrightarrow>
   \<exists>dirs pr_obj sha.
      git_modified_addon_dirs env (h @ merge_prelude mbb pr target) ''.'' target = Inr dirs
    \<and> h' = h @ merge_sequence env org repo mbb dry pr target user bump dirs pr_obj sha"
  by blast

lemma merge_bot_merge_pr_on_return:
  assumes "parse_merge_bot_branch env mbb = Inr (pr, target, user, bump)"
  shows "on_return (merge_bot_merge_pr env org repo mbb dry) h
           (\<lambda>r h'. r = True \<longrightarrow>
              (\<exists>dirs pr_obj sha.
                 git_modified_addon_dirs env (h @ merge_prelude mbb pr target) ''.'' target
                   = Inr dirs
               \<and> h' = h @ merge_sequence env org repo mbb dry pr target user bump dirs
                          pr_obj sha))"
  unfolding merge_bot_merge_pr_def
  apply (rule on_return_bnd, rule on_return_lift)
  apply (simp only: assms sum.inject)
  apply hypsubst
  apply (simp only: prod.case)
  apply (intro on_return_rules on_return_bump_loop on_return_publish_loop on_return_any)
  apply (simp_all only: simp_thms)
  apply (erule merge_sequenceI, assumption, assumption, simp add: merge_prelude_def,
      simp add: merge_sequence_def merge_prelude_def publish_events_def push_events_def
        label_events_def)+
  done

lemma merge_bot_merge_pr_True:
  assumes "parse_merge_bot_branch env mbb = Inr (pr, target, user, bump)"
    and "merge_bot_merge_pr env org repo mbb dry h = (Inr True, h')"
  shows "\<exists>dirs pr_obj sha.
           git_modified_addon_dirs env (h @ merge_prelude mbb pr target) ''.'' target = Inr dirs
         \<and> h' = h @ merge_sequence env org repo mbb dry pr target user bump dirs pr_obj sha"
  using on_returnD [OF merge_bot_merge_pr_on_return [OF assms(1)] assms(2)] by simp

subsection \<open>Rules for the events of a run\<close>

lemma emitsD: "emits P m \<Longrightarrow> \<exists>new. snd (m h) = h @ new \<and> list_all P new"
  by (simp add: emits_def)

lemma emits_bnd: "emits P m \<Longrightarrow> (\<And>x. emits P (f x)) \<Longrightarrow> emits P (bnd m f)"
proof (unfold emits_def, intro allI)
  fix h
  assume m: "\<forall>h. \<exists>new. snd (m h) = h @ new \<and> list_all P new"
    and f: "\<And>x. \<forall>h. \<exists>new. snd (f x h) = h @ new \<and> list_all P new"
  obtain r h1 where mh: "m h = (r, h1)" by (cases "m h")
  from m mh obtain n1 where n1: "h1 = h @ n1" "list_all P n1"
    by (metis snd_conv)
  show "\<exists>new. snd (bnd m f h) = h @ new \<and> list_all P new"
  proof (cases r)
    case (Inl e)
    with mh n1 show ?thesis by (auto simp: bnd_def)
  next
    case (Inr x)
    from f [of x] obtain n2 where "snd (f x h1) = h1 @ n2" "list_all P n2" by blast
    with Inr mh n1 show ?thesis by (auto simp: bnd_def)
  qed
qed

lemma emits_try_except:
  "emits P m \<Longrightarrow> (\<And>e. emits P (handler e)) \<Longrightarrow> emits P (try_except m handler)"
proof (unfold emits_def, intro allI)
  fix h
  assume m: "\<forall>h. \<exists>new. snd (m h) = h @ new \<and> list_all P new"
    and f: "\<And>e. \<forall>h. \<exists>new. snd (handler e h) = h @ new \<and> list_all P new"
  obtain r h1 where mh: "m h = (r, h1)" by (cases "m h")
  from m mh obtain n1 where n1: "h1 = h @ n1" "list_all P n1"
    by (metis snd_conv)
  show "\<exists>new. snd (try_except m handler h) = h @ new \<and> list_all P new"
  proof (cases r)
    case (Inr x)
    with mh n1 show ?thesis by (auto simp: try_except_def)
  next
    case (Inl e)
    from f [of e] obtain n2 where "snd (handler e h1) = h1 @ n2" "list_all P n2" by blast
    with Inl mh n1 show ?thesis by (auto simp: try_except_def)
  qed
qed

lemma emits_ret: "emits P (ret x)"
  by (simp add: emits_def ret_def)

lemma emits_raise: "emits P (raise e)"
  by (simp add: emits_def raise_def)

lemma emits_lift: "emits P (lift r)"
  by (simp add: emits_def lift_def)

lemma emits_log_info: "P (LogInfo s) \<Longrightarrow> emits P (log_info s)"
  by (simp add: emits_def log_info_def)

lemma emits_git_call: "P (GitCall c) \<Longrightarrow> emits P (git_call env c)"
  by (simp add: emits_def git_call_def split: prod.splits)

lemma emits_effect_call: "P ev \<Longrightarrow> emits P (effect_call env ev)"
  by (simp add: emits_def effect_call_def)

lemma emits_ask: "P ev \<Longrightarrow> emits P (ask oracle ev)"
  by (simp add: emits_def ask_def)

lemma emits_randint: "P (RandInt a b) \<Longrightarrow> emits P (randint env a b)"
  by (simp add: emits_def randint_def)

lemma emits_if: "emits P m1 \<Longrightarrow> emits P m2 \<Longrightarrow> emits P (if b then m1 else m2)"
  by simp

lemma emits_case_option:
  "emits P m1 \<Longrightarrow> (\<And>y. emits P (m2 y)) \<Longrightarrow> emits P (case x of None \<Rightarrow> m1 | Some y \<Rightarrow> m2 y)"
  by (simp split: option.splits)

lemma emits_case_exn:
  "(\<And>c out. emits P (m1 c out)) \<Longrightarrow> (\<And>d. emits P (m2 d)) \<Longrightarrow>
   emits P (case e of CalledProcessError c out \<Rightarrow> m1 c out | OtherException d \<Rightarrow> m2 d)"
  by (simp split: exn.splits)

lemma emits_temporary_clone:
  assumes "P (TemporaryClone org repo branch)" "P TemporaryCloneExit" "emits P body"
  shows "emits P (temporary_clone env org repo branch body)"
proof (unfold emits_def, intro allI)
  fix h
  let ?h1 = "h @ [TemporaryClone org repo branch]"
  from assms(3) obtain n where n: "snd (body ?h1) = ?h1 @ n" "list_all P n"
    unfolding emits_def by blast
  then show "\<exists>new. snd (temporary_clone env org repo branch body h) = h @ new \<and> list_all P new"
    using assms(1,2)
    by (auto simp: temporary_clone_def bnd_def effect_call_def split: option.splits prod.splits)
qed

lemma emits_git_delete_branch:
  "P (GitCall [''git'', ''push'', remote, '':'' @ b]) \<Longrightarrow> emits P (git_delete_branch env remote b)"
  unfolding git_delete_branch_def
  by (intro emits_try_except emits_git_call emits_case_exn emits_if emits_ret emits_raise)

lemma emits_get_merge_bot_intro_message:
  "P (RandInt 0 (int (length (MERGE_BOT_INTRO_MESSAGES env)) - 1)) \<Longrightarrow>
   emits P (get_merge_bot_intro_message env)"
  unfolding get_merge_bot_intro_message_def
  by (intro emits_bnd emits_randint emits_ret)

lemma emits_bnd_ask:
  assumes "P ev" and "\<And>y h1. oracle h1 = Inr y \<Longrightarrow> emits P (f y)"
  shows "emits P (bnd (ask oracle ev) f)"
proof (unfold emits_def, intro allI)
  fix h
  show "\<exists>new. snd (bnd (ask oracle ev) f h) = h @ new \<and> list_all P new"
  proof (cases "oracle h")
    case (Inl e)
    with assms(1) show ?thesis by (simp add: bnd_def ask_def)
  next
    case (Inr y)
    from assms(2) [OF Inr] obtain n where "snd (f y (h @ [ev])) = (h @ [ev]) @ n" "list_all P n"
      unfolding emits_def by blast
    with Inr assms(1) show ?thesis by (simp add: bnd_def ask_def)
  qed
qed

lemmas emits_rules = emits_bnd emits_try_except emits_ret emits_raise emits_lift emits_log_info
  emits_git_call emits_effect_call emits_ask emits_randint emits_if emits_case_option
  emits_case_exn emits_temporary_clone emits_git_delete_branch emits_get_merge_bot_intro_message

subsection \<open>The events of a start\<close>

lemma start_event_git:
  "pull_request env h org repo pr = Inr p \<Longrightarrow>
   c \<in> set (start_git_calls pr (base_ref p)
              (make_merge_bot_branch env pr (base_ref p) user bump)) \<Longrightarrow>
   start_event env org repo pr user bump (GitCall c)"
  by (auto simp: start_event_def start_command_def)

lemma merge_bot_start_try_emits:
  assumes "pull_request env h org repo pr = Inr p"
  shows "emits (start_event env org repo pr user bump)
     (merge_bot_start_try env org repo pr user bump intro (base_ref p))"
  unfolding merge_bot_start_try_def Let_def
  apply (intro emits_rules)
         apply (simp_all add: start_event_def)
      apply (rule start_event_git [OF assms, unfolded start_event_def, rule_format, OF _ refl],
        simp add: start_git_calls_def)+
  done

lemma merge_bot_start_emits:
  "emits (start_event env org repo pr user bump)
     (merge_bot_start env org repo pr user bump dry intro)"
  unfolding merge_bot_start_def
  apply (intro emits_bnd_ask emits_rules merge_bot_start_try_emits)
  apply (assumption | simp add: start_event_def)+
  done
subsection \<open>Evaluating a run step by step\<close>

lemma bnd_apply:
  "bnd m f h = (case m h of (Inl e, h') \<Rightarrow> (Inl e, h') | (Inr x, h') \<Rightarrow> f x h')"
  by (simp add: bnd_def)

lemma try_except_apply:
  "try_except m handler h =
     (case m h of (Inl e, h') \<Rightarrow> handler e h' | (Inr x, h') \<Rightarrow> (Inr x, h'))"
  by (simp add: try_except_def)

lemma ret_apply: "ret x h = (Inr x, h)"
  by (simp add: ret_def)

lemma raise_apply: "raise e h = (Inl e, h)"
  by (simp add: raise_def)

lemma lift_apply: "lift r h = (r, h)"
  by (simp add: lift_def)

lemma log_info_apply: "log_info s h = (Inr (), h @ [LogInfo s])"
  by (simp add: log_info_def)

lemma effect_call_apply:
  "effect_call env ev h = (case effect env h ev of None \<Rightarrow> Inr () | Some e \<Rightarrow> Inl e, h @ [ev])"
  by (simp add: effect_call_def)

lemma ask_apply: "ask oracle ev h = (oracle h, h @ [ev])"
  by (simp add: ask_def)

lemma git_call_apply:
  "git_call env c h =
     (if fst (subprocess_run env h c) = 0 then Inr ()
      else Inl (CalledProcessError c (snd (subprocess_run env h c))),
      h @ [GitCall c])"
  by (simp add: git_call_def split: prod.splits)

lemma subprocess_call_apply:
  "subprocess_call env c h = (Inr (fst (subprocess_run env h c)), h @ [SubprocessCall c])"
  by (simp add: subprocess_call_def)

lemma temporary_clone_apply:
  "temporary_clone env org repo branch body h =
     (case effect env h (TemporaryClone org repo branch) of
        Some e \<Rightarrow> (Inl e, h @ [TemporaryClone org repo branch])
      | None \<Rightarrow>
          (case body (h @ [TemporaryClone org repo branch]) of
             (r, h') \<Rightarrow> (r, h' @ [TemporaryCloneExit])))"
  by (simp add: temporary_clone_def bnd_def effect_call_def split: option.splits)

lemmas run_apply = bnd_apply try_except_apply ret_apply raise_apply lift_apply log_info_apply
  effect_call_apply ask_apply git_call_apply subprocess_call_apply temporary_clone_apply

text \<open>
  \<^verbatim>\<open>_get_commit_success\<close> is \<open>commit_success\<close> on the lists the GitHub client answers;
  when the first loop returns, the check suites are not even requested.
\<close>

lemma get_commit_success_eq:
  assumes "commit_statuses env h sha = Inr sts"
  shows "(statuses_loop (GITHUB_STATUS_IGNORED env) sts (None, False) = Inl v \<longrightarrow>
            get_commit_success env sha h = (Inr v, h @ [GhStatus sha]))
       \<and> (commit_check_suites env (h @ [GhStatus sha]) sha = Inr cs \<longrightarrow>
            fst (get_commit_success env sha h) =
              Inr (commit_success (GITHUB_STATUS_IGNORED env) (GITHUB_CHECK_SUITES_IGNORED env)
                     sts cs))"
  using assms
  by (auto simp: get_commit_success_def commit_success_def run_apply
      split: sum.splits prod.splits)

text \<open>
  \<^verbatim>\<open>_git_delete_branch\<close> swallows the failure of a deletion whose output says
  \<^verbatim>\<open>unable to delete\<close> and raises every other one.
\<close>

lemma git_delete_branch_apply:
  "git_delete_branch env remote b h =
     (if fst (subprocess_run env h [''git'', ''push'', remote, '':'' @ b]) = 0
         \<or> contains ''unable to delete''
              (snd (subprocess_run env h [''git'', ''push'', remote, '':'' @ b]))
      then Inr ()
      else Inl (CalledProcessError [''git'', ''push'', remote, '':'' @ b]
                  (snd (subprocess_run env h [''git'', ''push'', remote, '':'' @ b]))),
      h @ [GitCall [''git'', ''push'', remote, '':'' @ b]])"
  by (simp add: git_delete_branch_def run_apply)

subsection \<open>Evaluation of the examples\<close>

lemma str_nat_42: "str_nat 42 = ''42''"
  by (simp add: str_nat.simps digit_char_def)

lemmas run_defs = bnd_def ret_def raise_def lift_def try_except_def log_info_def effect_call_def
  ask_def git_call_def subprocess_call_def randint_def temporary_clone_def
  git_delete_branch_def get_merge_bot_intro_message_def

lemmas trace_defs = merge_sequence_def merge_prelude_def push_events_def label_events_def
  publish_events_def bump_events_def race_prelude_def

lemmas ex_env_defs = env_ok_def env_race_def env_race_conflict_def env_conflict_def
  env_denied_def env_no_pr_def env_failed_gone_def env_addon_def env_index_def
  env_race_retarget_def ex_parse_def ex_make_def ex_branch_def ex_branch_minor_def
  ex_branch_13_def ex_pr_def

subsection \<open>The set of modified addons\<close>

lemma merge_sequence_empty:
  "merge_sequence env org repo mbb dry pr target user bump [] pr_obj sha =
     merge_prelude mbb pr target
     @ [GitModifiedAddonDirs ''.'' target,
        GitCall [''git'', ''checkout'', mbb],
        GitCall [''git'', ''checkout'', target],
        GitCall [''git'', ''merge'', ''--no-ff'', ''--m'', merge_msg pr target user, mbb]]
     @ push_events org repo target dry
     @ [GitCall [''git'', ''push'', ''origin'', '':'' @ mbb],
        GhPullRequest org repo pr,
        GitGetHeadSha,
        CreateComment pr (merged_comment sha org target),
        GhIssue pr]
     @ label_events pr pr_obj dry
     @ [ClosePR pr]"
  by (simp add: merge_sequence_def bump_events_def publish_events_def split: option.splits)

lemma merge_sequence_empty_no_addon_event:
  "\<not> list_ex addon_event (merge_sequence env org repo mbb dry pr target user bump [] pr_obj sha)"
  by (simp add: merge_sequence_empty merge_prelude_def push_events_def label_events_def)

lemma empty_set_case:
  "\<exists>dirs pr_obj sha. A dirs \<and> B dirs pr_obj sha \<and> (dirs = [] \<longrightarrow> C pr_obj sha) \<Longrightarrow>
   A [] \<Longrightarrow> (\<And>dirs. A dirs \<Longrightarrow> A [] \<Longrightarrow> dirs = []) \<Longrightarrow> \<exists>pr_obj sha. C pr_obj sha"
  by blast

text \<open>
  Claim C8. \<^verbatim>\<open>_merge_bot_merge_pr\<close> is run with \<^verbatim>\<open>dry_run\<close> at its default \<^verbatim>\<open>False\<close>: its
  only call, in \<^verbatim>\<open>merge_bot_status\<close>, passes no other value. When such a finalization
  merges (it returns \<^verbatim>\<open>True\<close>), the set of modified addons is what
  \<^verbatim>\<open>git_modified_addon_dirs(".", target_branch)\<close> answered right after the head of the
  pull request was fetched into \<^verbatim>\<open>tmp-pr-N\<close> and checked out, before the bot branch is
  checked out; the run leaves the merge sequence for that set. Whenever the set is
  empty, whatever the bump policy and the wheel index are, no maintenance action, no
  version bump, no wheel build and no wheel publication happens, and the merge commit,
  the push of the target branch, the deletion of the bot branch, the success comment,
  the label and the closing of the pull request happen, in this order.
\<close>

theorem empty_addon_set_skips_maintenance:
  assumes "parse_merge_bot_branch env mbb = Inr (pr, target, user, bump)"
    and "merge_bot_merge_pr env org repo mbb False h = (Inr True, h')"
  shows "\<exists>dirs pr_obj sha.
           git_modified_addon_dirs env (h @ merge_prelude mbb pr target) ''.'' target = Inr dirs
         \<and> h' = h @ merge_sequence env org repo mbb False pr target user bump dirs pr_obj sha
         \<and> (dirs = [] \<longrightarrow>
              \<not> list_ex addon_event (drop (length h) h')
            \<and> h' = h @ merge_prelude mbb pr target
                  @ [GitModifiedAddonDirs ''.'' target,
                     GitCall [''git'', ''checkout'', mbb],
                     GitCall [''git'', ''checkout'', target],
                     GitCall [''git'', ''merge'', ''--no-ff'', ''--m'',
                              merge_msg pr target user, mbb],
                     LogInfo (''git push in '' @ org @ ''/'' @ repo @ ''@'' @ target),
                     GitCall [''git'', ''push'', ''origin'', target],
                     GitCall [''git'', ''push'', ''origin'', '':'' @ mbb],
                     GhPullRequest org repo pr,
                     GitGetHeadSha,
                     CreateComment pr (merged_comment sha org target),
                     GhIssue pr,
                     LogInfo (''add '' @ LABEL_MERGED @ '' label to PR '' @ url pr_obj),
                     AddLabels pr LABEL_MERGED,
                     ClosePR pr])"
proof -
  from merge_bot_merge_pr_True [OF assms] obtain dirs pr_obj sha where
    d: "git_modified_addon_dirs env (h @ merge_prelude mbb pr target) ''.'' target = Inr dirs"
    and h': "h' = h @ merge_sequence env org repo mbb False pr target user bump dirs pr_obj sha"
    by blast
  have "dirs = [] \<longrightarrow>
          \<not> list_ex addon_event (drop (length h) h')
        \<and> h' = h @ merge_prelude mbb pr target
              @ [GitModifiedAddonDirs ''.'' target,
                 GitCall [''git'', ''checkout'', mbb],
                 GitCall [''git'', ''checkout'', target],
                 GitCall [''git'', ''merge'', ''--no-ff'', ''--m'',
                          merge_msg pr target user, mbb],
                 LogInfo (''git push in '' @ org @ ''/'' @ repo @ ''@'' @ target),
                 GitCall [''git'', ''push'', ''origin'', target],
                 GitCall [''git'', ''push'', ''origin'', '':'' @ mbb],
                 GhPullRequest org repo pr,
                 GitGetHeadSha,
                 CreateComment pr (merged_comment sha org target),
                 GhIssue pr,
                 LogInfo (''add '' @ LABEL_MERGED @ '' label to PR '' @ url pr_obj),
                 AddLabels pr LABEL_MERGED,
                 ClosePR pr]"
    using h' merge_sequence_empty_no_addon_event
      [of env org repo mbb False pr target user bump pr_obj sha]
    by (simp add: merge_sequence_empty push_events_def label_events_def)
  with d h' show ?thesis by blast
qed

text \<open>
  The theorem at work with a minor bump requested and a wheel index configured. When
  no addon is modified, the finalization bumps, builds and publishes nothing, and
  merges, pushes, deletes, comments, labels and closes. In the same setting with one
  modified addon, the maintenance actions, the bump, the build and the publication do
  happen.
\<close>

theorem empty_addon_set_skips_maintenance_witness:
  "parse_merge_bot_branch env_index ex_branch_minor = Inr (42, ''12.0'', ''alice'', Some Minor)
   \<and> SIMPLE_INDEX_ROOT env_index = Some ''/var/simple''
   \<and> fst (merge_bot_merge_pr env_index ''OCA'' ''repo'' ex_branch_minor False []) = Inr True
   \<and> git_modified_addon_dirs env_index ([] @ merge_prelude ex_branch_minor 42 ''12.0'')
        ''.'' ''12.0'' = Inr []
   \<and> \<not> list_ex addon_event
         (snd (merge_bot_merge_pr env_index ''OCA'' ''repo'' ex_branch_minor False []))
   \<and> (\<exists>(pr_obj :: gh_pr) sha.
        snd (merge_bot_merge_pr env_index ''OCA'' ''repo'' ex_branch_minor False []) =
          merge_prelude ex_branch_minor 42 ''12.0''
          @ [GitModifiedAddonDirs ''.'' ''12.0'',
             GitCall [''git'', ''checkout'', ex_branch_minor],
             GitCall [''git'', ''checkout'', ''12.0''],
             GitCall [''git'', ''merge'', ''--no-ff'', ''--m'',
                      merge_msg 42 ''12.0'' ''alice'', ex_branch_minor],
             LogInfo (''git push in OCA/repo@12.0''),
             GitCall [''git'', ''push'', ''origin'', ''12.0''],
             GitCall [''git'', ''push'', ''origin'', '':'' @ ex_branch_minor],
             GhPullRequest ''OCA'' ''repo'' 42,
             GitGetHeadSha,
             CreateComment 42 (merged_comment sha ''OCA'' ''12.0''),
             GhIssue 42,
             LogInfo (''add '' @ LABEL_MERGED @ '' label to PR '' @ url pr_obj),
             AddLabels 42 LABEL_MERGED,
             ClosePR 42])
   \<and> snd (merge_bot_merge_pr env_addon ''OCA'' ''repo'' ex_branch_minor False []) =
       merge_prelude ex_branch_minor 42 ''12.0''
       @ [GitModifiedAddonDirs ''.'' ''12.0'',
          GitCall [''git'', ''checkout'', ex_branch_minor],
          MainBranchBotActions ''OCA'' ''repo'' ''12.0'',
          BumpManifestVersion ''addon_a'' Minor True,
          BuildAndCheckWheel ''addon_a'',
          GitCall [''git'', ''checkout'', ''12.0''],
          GitCall [''git'', ''merge'', ''--no-ff'', ''--m'',
                   merge_msg 42 ''12.0'' ''alice'', ex_branch_minor],
          LogInfo (''git push in OCA/repo@12.0''),
          GitCall [''git'', ''push'', ''origin'', ''12.0''],
          BuildAndPublishWheel ''addon_a'' ''/var/simple'' False,
          GitCall [''git'', ''push'', ''origin'', '':'' @ ex_branch_minor],
          GhPullRequest ''OCA'' ''repo'' 42,
          GitGetHeadSha,
          CreateComment 42 (merged_comment ''f00d'' ''OCA'' ''12.0''),
          GhIssue 42,
          LogInfo (''add '' @ LABEL_MERGED @ '' label to PR '' @ url ex_pr),
          AddLabels 42 LABEL_MERGED,
          ClosePR 42]"
proof -
  let ?run = "merge_bot_merge_pr env_index ''OCA'' ''repo'' ex_branch_minor False []"
  have p: "parse_merge_bot_branch env_index ex_branch_minor
             = Inr (42, ''12.0'', ''alice'', Some Minor)"
    by (simp add: env_index_def env_ok_def ex_parse_def ex_branch_def ex_branch_minor_def)
  have i: "SIMPLE_INDEX_ROOT env_index = Some ''/var/simple''"
    by (simp add: env_index_def env_ok_def)
  have r: "fst ?run = Inr True"
    by (simp add: merge_bot_merge_pr_def run_defs env_index_def env_ok_def ex_parse_def
        ex_branch_def ex_branch_minor_def str_nat_42)
  then have run: "?run = (Inr True, snd ?run)"
    by (metis prod.collapse)
  have d: "git_modified_addon_dirs env_index ([] @ merge_prelude ex_branch_minor 42 ''12.0'')
             ''.'' ''12.0'' = Inr []"
    by (simp add: env_index_def env_ok_def)
  have e: "\<not> list_ex addon_event (snd ?run)
      \<and> (\<exists>(pr_obj :: gh_pr) sha.
        snd ?run =
          merge_prelude ex_branch_minor 42 ''12.0''
          @ [GitModifiedAddonDirs ''.'' ''12.0'',
             GitCall [''git'', ''checkout'', ex_branch_minor],
             GitCall [''git'', ''checkout'', ''12.0''],
             GitCall [''git'', ''merge'', ''--no-ff'', ''--m'',
                      merge_msg 42 ''12.0'' ''alice'', ex_branch_minor],
             LogInfo (''git push in OCA/repo@12.0''),
             GitCall [''git'', ''push'', ''origin'', ''12.0''],
             GitCall [''git'', ''push'', ''origin'', '':'' @ ex_branch_minor],
             GhPullRequest ''OCA'' ''repo'' 42,
             GitGetHeadSha,
             CreateComment 42 (merged_comment sha ''OCA'' ''12.0''),
             GhIssue 42,
             LogInfo (''add '' @ LABEL_MERGED @ '' label to PR '' @ url pr_obj),
             AddLabels 42 LABEL_MERGED,
             ClosePR 42])"
    using empty_addon_set_skips_maintenance [OF p run, THEN empty_set_case, OF d]
    by simp
  have a: "snd (merge_bot_merge_pr env_addon ''OCA'' ''repo'' ex_branch_minor False []) =
       merge_prelude ex_branch_minor 42 ''12.0''
       @ [GitModifiedAddonDirs ''.'' ''12.0'',
          GitCall [''git'', ''checkout'', ex_branch_minor],
          MainBranchBotActions ''OCA'' ''repo'' ''12.0'',
          BumpManifestVersion ''addon_a'' Minor True,
          BuildAndCheckWheel ''addon_a'',
          GitCall [''git'', ''checkout'', ''12.0''],
          GitCall [''git'', ''merge'', ''--no-ff'', ''--m'',
                   merge_msg 42 ''12.0'' ''alice'', ex_branch_minor],
          LogInfo (''git push in OCA/repo@12.0''),
          GitCall [''git'', ''push'', ''origin'', ''12.0''],
          BuildAndPublishWheel ''addon_a'' ''/var/simple'' False,
          GitCall [''git'', ''push'', ''origin'', '':'' @ ex_branch_minor],
          GhPullRequest ''OCA'' ''repo'' 42,
          GitGetHeadSha,
          CreateComment 42 (merged_comment ''f00d'' ''OCA'' ''12.0''),
          GhIssue 42,
          LogInfo (''add '' @ LABEL_MERGED @ '' label to PR '' @ url ex_pr),
          AddLabels 42 LABEL_MERGED,
          ClosePR 42]"
    by (simp add: merge_bot_merge_pr_def run_defs merge_prelude_def env_addon_def env_ok_def
        ex_parse_def ex_branch_def ex_branch_minor_def str_nat_42)
  from p i r d e a show ?thesis by (intro conjI) simp_all
qed

subsection \<open>Dry-run mode\<close>

lemma merge_sequence_dry_run:
  fixes env org repo mbb pr target user bump dirs pr_obj sha
  defines "tr \<equiv> merge_sequence env org repo mbb True pr target user bump dirs pr_obj sha"
  shows "GitCall [''git'', ''merge'', ''--no-ff'', ''--m'', merge_msg pr target user, mbb] \<in> set tr"
    and "GitCall [''git'', ''push'', ''origin'', '':'' @ mbb] \<in> set tr"
    and "CreateComment pr (merged_comment sha org target) \<in> set tr"
    and "ClosePR pr \<in> set tr"
    and "LogInfo (''DRY-RUN git push in '' @ org @ ''/'' @ repo @ ''@'' @ target) \<in> set tr"
    and "LogInfo (''DRY-RUN add '' @ LABEL_MERGED @ '' label to PR '' @ url pr_obj) \<in> set tr"
    and "\<forall>args. GitCall (''git'' # ''push'' # args) \<in> set tr \<longrightarrow> args = [''origin'', '':'' @ mbb]"
    and "\<forall>n l. AddLabels n l \<notin> set tr"
    and "\<forall>d root f. BuildAndPublishWheel d root f \<in> set tr \<longrightarrow> f"
  unfolding tr_def
  by (auto simp: trace_defs split: option.splits if_splits)

text \<open>
  Claim C10. A finalization in dry-run mode that merges leaves the merge sequence of
  dry-run mode: the merge commit is made, the bot branch is deleted from the remote (the
  only \<^verbatim>\<open>git push\<close> of the run), the comment is posted and the pull request is closed;
  the push of the target branch and the label are log lines, no label is added, and
  every wheel publication carries the dry-run flag.
\<close>

theorem dry_run_simulates_push_publish_label:
  assumes "parse_merge_bot_branch env mbb = Inr (pr, target, user, bump)"
    and "merge_bot_merge_pr env org repo mbb True h = (Inr True, h')"
  shows "\<exists>dirs pr_obj sha new.
           new = merge_sequence env org repo mbb True pr target user bump dirs pr_obj sha
         \<and> h' = h @ new
         \<and> GitCall [''git'', ''merge'', ''--no-ff'', ''--m'', merge_msg pr target user, mbb]
             \<in> set new
         \<and> GitCall [''git'', ''push'', ''origin'', '':'' @ mbb] \<in> set new
         \<and> CreateComment pr (merged_comment sha org target) \<in> set new
         \<and> ClosePR pr \<in> set new
         \<and> LogInfo (''DRY-RUN git push in '' @ org @ ''/'' @ repo @ ''@'' @ target) \<in> set new
         \<and> LogInfo (''DRY-RUN add '' @ LABEL_MERGED @ '' label to PR '' @ url pr_obj) \<in> set new
         \<and> (\<forall>args. GitCall (''git'' # ''push'' # args) \<in> set new
                \<longrightarrow> args = [''origin'', '':'' @ mbb])
         \<and> (\<forall>n l. AddLabels n l \<notin> set new)
         \<and> (\<forall>d root f. BuildAndPublishWheel d root f \<in> set new \<longrightarrow> f)"
proof -
  from merge_bot_merge_pr_True [OF assms] obtain dirs pr_obj sha where
    "h' = h @ merge_sequence env org repo mbb True pr target user bump dirs pr_obj sha"
    by blast
  with merge_sequence_dry_run [where env = env and org = org and repo = repo and mbb = mbb
      and pr = pr and target = target and user = user and bump = bump and dirs = dirs
      and pr_obj = pr_obj and sha = sha]
  show ?thesis by blast
qed

text \<open>
  The theorem at work: one modified addon, a minor bump and a configured wheel index.
\<close>

theorem dry_run_simulates_push_publish_label_witness:
  "parse_merge_bot_branch env_addon ex_branch_minor = Inr (42, ''12.0'', ''alice'', Some Minor)
   \<and> fst (merge_bot_merge_pr env_addon ''OCA'' ''repo'' ex_branch_minor True []) = Inr True
   \<and> BuildAndPublishWheel ''addon_a'' ''/var/simple'' True
       \<in> set (snd (merge_bot_merge_pr env_addon ''OCA'' ''repo'' ex_branch_minor True []))
   \<and> ClosePR 42
       \<in> set (snd (merge_bot_merge_pr env_addon ''OCA'' ''repo'' ex_branch_minor True []))
   \<and> (\<forall>n l. AddLabels n l
        \<notin> set (snd (merge_bot_merge_pr env_addon ''OCA'' ''repo'' ex_branch_minor True [])))"
proof -
  let ?run = "merge_bot_merge_pr env_addon ''OCA'' ''repo'' ex_branch_minor True []"
  have p: "parse_merge_bot_branch env_addon ex_branch_minor
           = Inr (42, ''12.0'', ''alice'', Some Minor)"
    by (simp add: env_addon_def env_ok_def ex_parse_def ex_branch_def ex_branch_minor_def)
  have r: "fst ?run = Inr True"
    by (simp add: merge_bot_merge_pr_def run_defs env_addon_def env_ok_def ex_parse_def
        ex_branch_def ex_branch_minor_def str_nat_42)
  then have run: "?run = (Inr True, snd ?run)"
    by (metis prod.collapse)
  have pub: "BuildAndPublishWheel ''addon_a'' ''/var/simple'' True \<in> set (snd ?run)"
    by (simp add: merge_bot_merge_pr_def run_defs env_addon_def env_ok_def ex_parse_def
        ex_branch_def ex_branch_minor_def str_nat_42)
  from dry_run_simulates_push_publish_label [OF p run]
  have "ClosePR 42 \<in> set (snd ?run) \<and> (\<forall>n l. AddLabels n l \<notin> set (snd ?run))"
    by auto
  with p r pub show ?thesis by blast
qed

subsection \<open>Stale status events\<close>

text \<open>
  Claim C6. When the head of the clone of the bot branch is not the commit of the
  event, \<^verbatim>\<open>merge_bot_status\<close> returns normally and all it did was to take the clone,
  read its head and release the clone: no request to the GitHub client, no comment, no
  git command. The branch name is not decoded: the outcome is the same with any other
  decoder, even one that raises.
\<close>

theorem stale_status_is_discarded:
  assumes "effect env h (TemporaryClone org repo mbb) = None"
    and "git_get_head_sha env (h @ [TemporaryClone org repo mbb]) = Inr head_sha"
    and "head_sha \<noteq> sha"
  shows "merge_bot_status env org repo mbb sha h =
           (Inr (),
            if merge_bot_enabled env
            then h @ [TemporaryClone org repo mbb, GitGetHeadSha, TemporaryCloneExit]
            else h)
       \<and> merge_bot_status (env\<lparr>parse_merge_bot_branch := decoder\<rparr>) org repo mbb sha h =
           merge_bot_status env org repo mbb sha h"
  using assms
  by (simp add: merge_bot_status_def temporary_clone_def bnd_def effect_call_def ask_def ret_def)

text \<open>The theorem at work: an event for commit \<^verbatim>\<open>beef\<close> while the head is \<^verbatim>\<open>f00d\<close>.\<close>

theorem stale_status_is_discarded_witness:
  "merge_bot_status env_ok ''OCA'' ''repo'' ex_branch ''beef'' [] =
     (Inr (), [TemporaryClone ''OCA'' ''repo'' ex_branch, GitGetHeadSha, TemporaryCloneExit])
   \<and> merge_bot_status (env_ok\<lparr>parse_merge_bot_branch := (\<lambda>b. Inl (OtherException ''boom''))\<rparr>)
        ''OCA'' ''repo'' ex_branch ''beef'' [] =
       merge_bot_status env_ok ''OCA'' ''repo'' ex_branch ''beef'' []"
proof -
  have a: "effect env_ok [] (TemporaryClone ''OCA'' ''repo'' ex_branch) = None"
    by (simp add: env_ok_def)
  have b: "git_get_head_sha env_ok ([] @ [TemporaryClone ''OCA'' ''repo'' ex_branch]) = Inr ''f00d''"
    by (simp add: env_ok_def)
  have c: "''f00d'' \<noteq> ''beef''" by simp
  have d: "merge_bot_enabled env_ok" by (simp add: env_ok_def)
  from stale_status_is_discarded [OF a b c, of "\<lambda>b. Inl (OtherException ''boom'')"] d
  show ?thesis by simp
qed

subsection \<open>Deleting a bot branch that is gone\<close>

text \<open>
  Claim C5 at a failing input. A check failed and the bot branch is already gone from
  the remote, so that \<^verbatim>\<open>git push origin :branch\<close> fails with \<^verbatim>\<open>unable to delete\<close>.
  \<^verbatim>\<open>_git_delete_branch\<close>, which the start and the finalization use, swallows this
  failure; \<^verbatim>\<open>merge_bot_status\<close> on the failure verdict calls \<^verbatim>\<open>_git_call\<close> directly and
  raises it.
\<close>

theorem status_deletion_raises_when_branch_is_gone:
  "fst (git_delete_branch env_failed_gone ''origin'' ex_branch []) = Inr ()
   \<and> merge_bot_status env_failed_gone ''OCA'' ''repo'' ex_branch ''f00d'' [] =
       (Inl (CalledProcessError [''git'', ''push'', ''origin'', '':'' @ ex_branch]
               ''error: unable to delete the branch: remote ref does not exist''),
        [TemporaryClone ''OCA'' ''repo'' ex_branch,
         GitGetHeadSha,
         GhRepository ''OCA'' ''repo'',
         GhPullRequest ''OCA'' ''repo'' 42,
         GhCommit ''OCA'' ''repo'' ''f00d'',
         GhStatus ''f00d'',
         CreateComment 42 (aborted_comment ''alice'' ex_branch ''OCA'' ''repo'' ''f00d''),
         GitCall [''git'', ''push'', ''origin'', '':'' @ ex_branch],
         TemporaryCloneExit])"
  by (simp add: merge_bot_status_def get_commit_success_def run_defs env_failed_gone_def
      env_ok_def ex_parse_def ex_entry_defs startswith_def)

subsection \<open>The race with the target branch\<close>

lemma start_command_not_merge:
  "start_command env org repo pr user bump (''git'' # ''merge'' # args) \<Longrightarrow> False"
  by (auto simp: start_command_def start_git_calls_def)

lemma start_command_push:
  "start_command env org repo pr user bump (''git'' # ''push'' # args) \<Longrightarrow>
   \<exists>h1 p. pull_request env h1 org repo pr = Inr p
     \<and> (args = [''origin'', make_merge_bot_branch env pr (base_ref p) user bump]
        \<or> args = [''origin'', '':'' @ make_merge_bot_branch env pr (base_ref p) user bump])"
  unfolding start_command_def start_git_calls_def by fastforce

lemma start_command_same_target:
  "start_command env org repo pr user bump c \<Longrightarrow>
   \<forall>h1 p. pull_request env h1 org repo pr = Inr p \<longrightarrow> base_ref p = target \<Longrightarrow>
   c \<in> set (start_git_calls pr target (make_merge_bot_branch env pr target user bump))"
  unfolding start_command_def by metis

lemma race_events_git:
  "list_all (start_event env org repo pr user bump) new \<Longrightarrow>
   GitCall c \<in> set (race_prelude mbb target @ new) \<Longrightarrow>
   c = [''git'', ''checkout'', target] \<or> start_command env org repo pr user bump c"
  by (auto simp: race_prelude_def list_all_iff start_event_def)

lemma merge_bot_merge_pr_race:
  assumes "parse_merge_bot_branch env mbb = Inr (pr, target, user, bump)"
    and "fst (subprocess_run env h [''git'', ''checkout'', target]) = 0"
    and "fst (subprocess_run env (h @ [GitCall [''git'', ''checkout'', target]])
               [''git'', ''merge-base'', ''--is-ancestor'', target, mbb]) \<noteq> 0"
    and "merge_bot_start env org repo pr user bump dry (Some (retry_intro_message target))
           (h @ race_prelude mbb target) = (r, h')"
  shows "merge_bot_merge_pr env org repo mbb dry h =
           (case r of Inl e \<Rightarrow> Inl e | Inr u \<Rightarrow> Inr False, h')"
proof -
  have "merge_bot_merge_pr env org repo mbb dry h =
          bnd (merge_bot_start env org repo pr user bump dry (Some (retry_intro_message target)))
            (\<lambda>_. ret False) (h @ race_prelude mbb target)"
    unfolding merge_bot_merge_pr_def
    by (simp add: run_apply assms(1,2,3) race_prelude_def)
  also have "\<dots> = (case r of Inl e \<Rightarrow> Inl e | Inr u \<Rightarrow> Inr False, h')"
    using assms(4) by (simp add: bnd_def ret_def split: sum.splits)
  finally show ?thesis .
qed

text \<open>
  Claim C1, amended. When the branch name decodes, the checkout of the target branch
  succeeds and the target branch is not an ancestor of the bot branch, the finalization
  is the checkout, the race check, a log line and exactly one run of
  \<^verbatim>\<open>merge_bot_start\<close> with the decoded pull request, user name and bump policy, the
  same \<^verbatim>\<open>dry_run\<close> and the retry message. It returns \<^verbatim>\<open>False\<close> when that run returns,
  and raises what that run raises. Of that finalization:

  \<^item> every git command is the checkout of the target branch or one of the five
    commands of a start (fetch, checkout, rebase, delete, push) for a base ref \<open>t\<close>
    that the GitHub client answered for the pull request and for the bot branch the
    codec makes for the pull request, \<open>t\<close>, the user name and the bump policy;
  \<^item> no \<^verbatim>\<open>git merge\<close> is run;
  \<^item> every \<^verbatim>\<open>git push\<close>, whatever its arguments, is \<^verbatim>\<open>git push origin B\<close> or
    \<^verbatim>\<open>git push origin :B\<close> for such a bot branch \<open>B\<close>;
  \<^item> when the codec makes no branch name that is the name of the target branch, with
    or without a colon in front, \<^verbatim>\<open>git push origin <target>\<close> is not run, and every
    push pushes or deletes a branch other than the target branch;
  \<^item> when the GitHub client answers the decoded target branch as the base ref of the
    pull request, the start works on the decoded target branch and on the bot branch
    the codec makes for the decoded pull request, target branch, user name and bump
    policy.
\<close>

theorem race_restarts_start:
  assumes "parse_merge_bot_branch env mbb = Inr (pr, target, user, bump)"
    and "fst (subprocess_run env h [''git'', ''checkout'', target]) = 0"
    and "fst (subprocess_run env (h @ [GitCall [''git'', ''checkout'', target]])
               [''git'', ''merge-base'', ''--is-ancestor'', target, mbb]) \<noteq> 0"
  shows "\<exists>r new.
           merge_bot_start env org repo pr user bump dry (Some (retry_intro_message target))
             (h @ race_prelude mbb target) = (r, h @ race_prelude mbb target @ new)
         \<and> merge_bot_merge_pr env org repo mbb dry h =
             (case r of Inl e \<Rightarrow> Inl e | Inr u \<Rightarrow> Inr False, h @ race_prelude mbb target @ new)
         \<and> (\<forall>c. GitCall c \<in> set (race_prelude mbb target @ new) \<longrightarrow>
               c = [''git'', ''checkout'', target]
             \<or> (\<exists>h1 p. pull_request env h1 org repo pr = Inr p
                   \<and> c \<in> set (start_git_calls pr (base_ref p)
                                 (make_merge_bot_branch env pr (base_ref p) user bump))))
         \<and> (\<forall>args. GitCall (''git'' # ''merge'' # args) \<notin> set (race_prelude mbb target @ new))
         \<and> (\<forall>args. GitCall (''git'' # ''push'' # args) \<in> set (race_prelude mbb target @ new) \<longrightarrow>
               (\<exists>h1 p. pull_request env h1 org repo pr = Inr p
                  \<and> (args = [''origin'', make_merge_bot_branch env pr (base_ref p) user bump]
                     \<or> args = [''origin'',
                                '':'' @ make_merge_bot_branch env pr (base_ref p) user bump])))
         \<and> ((\<forall>t. make_merge_bot_branch env pr t user bump \<noteq> target
                 \<and> '':'' @ make_merge_bot_branch env pr t user bump \<noteq> target) \<longrightarrow>
               GitCall [''git'', ''push'', ''origin'', target] \<notin> set (race_prelude mbb target @ new)
             \<and> (\<forall>args. GitCall (''git'' # ''push'' # args) \<in> set (race_prelude mbb target @ new) \<longrightarrow>
                   (\<exists>b. b \<noteq> target \<and> (args = [''origin'', b] \<or> args = [''origin'', '':'' @ b]))))
         \<and> ((\<forall>h1 p. pull_request env h1 org repo pr = Inr p \<longrightarrow> base_ref p = target) \<longrightarrow>
               (\<forall>c. GitCall c \<in> set (race_prelude mbb target @ new) \<longrightarrow>
                  c = [''git'', ''checkout'', target]
                \<or> c \<in> set (start_git_calls pr target
                              (make_merge_bot_branch env pr target user bump))))"
proof -
  let ?h0 = "h @ race_prelude mbb target"
  let ?start = "merge_bot_start env org repo pr user bump dry (Some (retry_intro_message target))"
  let ?evs = "race_prelude mbb target @ new"
  have "emits (start_event env org repo pr user bump) ?start"
    by (rule merge_bot_start_emits)
  from emitsD [OF this, of ?h0]
  obtain new where new: "snd (?start ?h0) = ?h0 @ new"
    and ev: "list_all (start_event env org repo pr user bump) new"
    by blast
  obtain r where r: "?start ?h0 = (r, ?h0 @ new)"
    using new by (cases "?start ?h0") simp
  have fin: "merge_bot_merge_pr env org repo mbb dry h =
               (case r of Inl e \<Rightarrow> Inl e | Inr u \<Rightarrow> Inr False, ?h0 @ new)"
    by (rule merge_bot_merge_pr_race [OF assms r])
  have cmd: "c = [''git'', ''checkout'', target] \<or> start_command env org repo pr user bump c"
    if "GitCall c \<in> set (race_prelude mbb target @ new)" for c
    using race_events_git [OF ev that] .
  have cmds: "\<forall>c. GitCall c \<in> set (race_prelude mbb target @ new) \<longrightarrow>
               c = [''git'', ''checkout'', target]
             \<or> (\<exists>h1 p. pull_request env h1 org repo pr = Inr p
                   \<and> c \<in> set (start_git_calls pr (base_ref p)
                                 (make_merge_bot_branch env pr (base_ref p) user bump)))"
    using cmd unfolding start_command_def by blast
  have no_merge: "\<forall>args. GitCall (''git'' # ''merge'' # args) \<notin> set (race_prelude mbb target @ new)"
    using cmd start_command_not_merge [of env org repo pr user bump] by fastforce
  have pushes: "\<forall>args. GitCall (''git'' # ''push'' # args) \<in> set (race_prelude mbb target @ new) \<longrightarrow>
               (\<exists>h1 p. pull_request env h1 org repo pr = Inr p
                  \<and> (args = [''origin'', make_merge_bot_branch env pr (base_ref p) user bump]
                     \<or> args = [''origin'',
                                '':'' @ make_merge_bot_branch env pr (base_ref p) user bump]))"
  proof (intro allI impI)
    fix args
    assume "GitCall (''git'' # ''push'' # args) \<in> set (race_prelude mbb target @ new)"
    from cmd [OF this] have "start_command env org repo pr user bump (''git'' # ''push'' # args)"
      by simp
    then show "\<exists>h1 p. pull_request env h1 org repo pr = Inr p
                  \<and> (args = [''origin'', make_merge_bot_branch env pr (base_ref p) user bump]
                     \<or> args = [''origin'',
                                '':'' @ make_merge_bot_branch env pr (base_ref p) user bump])"
      by (rule start_command_push)
  qed
  have not_target:
    "(\<forall>t. make_merge_bot_branch env pr t user bump \<noteq> target
         \<and> '':'' @ make_merge_bot_branch env pr t user bump \<noteq> target) \<longrightarrow>
       GitCall [''git'', ''push'', ''origin'', target] \<notin> set (race_prelude mbb target @ new)
     \<and> (\<forall>args. GitCall (''git'' # ''push'' # args) \<in> set (race_prelude mbb target @ new) \<longrightarrow>
           (\<exists>b. b \<noteq> target \<and> (args = [''origin'', b] \<or> args = [''origin'', '':'' @ b])))"
  proof (intro impI conjI allI notI)
    assume H: "\<forall>t. make_merge_bot_branch env pr t user bump \<noteq> target
                 \<and> '':'' @ make_merge_bot_branch env pr t user bump \<noteq> target"
    {
      assume "GitCall [''git'', ''push'', ''origin'', target] \<in> set (race_prelude mbb target @ new)"
      from pushes [rule_format, of "[''origin'', target]", OF this] obtain h1 p where
        "pull_request env h1 org repo pr = Inr p"
        "[''origin'', target] = [''origin'', make_merge_bot_branch env pr (base_ref p) user bump]
         \<or> [''origin'', target]
             = [''origin'', '':'' @ make_merge_bot_branch env pr (base_ref p) user bump]"
        by (elim exE conjE)
      then have "target = make_merge_bot_branch env pr (base_ref p) user bump
                 \<or> target = '':'' @ make_merge_bot_branch env pr (base_ref p) user bump"
        by simp
      with H [rule_format, of "base_ref p"] show False by metis
    }
    {
      fix args
      assume "GitCall (''git'' # ''push'' # args) \<in> set (race_prelude mbb target @ new)"
      from pushes [rule_format, OF this] obtain h1 p where
        "pull_request env h1 org repo pr = Inr p"
        and a: "args = [''origin'', make_merge_bot_branch env pr (base_ref p) user bump]
         \<or> args = [''origin'', '':'' @ make_merge_bot_branch env pr (base_ref p) user bump]"
        by (elim exE conjE)
      from H [rule_format, of "base_ref p"]
      have "make_merge_bot_branch env pr (base_ref p) user bump \<noteq> target" by (rule conjunct1)
      with a show "\<exists>b. b \<noteq> target \<and> (args = [''origin'', b] \<or> args = [''origin'', '':'' @ b])"
        by (intro exI [of _ "make_merge_bot_branch env pr (base_ref p) user bump"] conjI)
    }
  qed
  have same_target:
    "(\<forall>h1 p. pull_request env h1 org repo pr = Inr p \<longrightarrow> base_ref p = target) \<longrightarrow>
       (\<forall>c. GitCall c \<in> set (race_prelude mbb target @ new) \<longrightarrow>
          c = [''git'', ''checkout'', target]
        \<or> c \<in> set (start_git_calls pr target
                      (make_merge_bot_branch env pr target user bump)))"
    using cmd start_command_same_target [of env org repo pr user bump _ target] by blast
  from r fin cmds no_merge pushes not_target same_target show ?thesis
    by (intro exI [of _ r] exI [of _ new] conjI) (simp_all del: append_assoc add: append_assoc [symmetric])
qed

text \<open>
  Against claim C1 as it is written, two runs. In the first the target branch moved
  and the rebase of the restart runs into a conflict: the start comments and re-raises,
  and the finalization raises. In the second the target branch moved and the pull
  request was retargeted from \<^verbatim>\<open>12.0\<close> to \<^verbatim>\<open>13.0\<close> in the meantime: the restart
  clones \<^verbatim>\<open>13.0\<close>, rebases on it and pushes a bot branch whose name decodes to the
  target branch \<^verbatim>\<open>13.0\<close>, not to the decoded target branch \<^verbatim>\<open>12.0\<close>.
\<close>

theorem race_restart_counterexample:
  "parse_merge_bot_branch env_race_conflict ex_branch = Inr (42, ''12.0'', ''alice'', None)
   \<and> fst (subprocess_run env_race_conflict [GitCall [''git'', ''checkout'', ''12.0'']]
            [''git'', ''merge-base'', ''--is-ancestor'', ''12.0'', ex_branch]) = 1
   \<and> merge_bot_merge_pr env_race_conflict ''OCA'' ''repo'' ex_branch False [] =
       (Inl (CalledProcessError [''git'', ''rebase'', ''--autosquash'', ''12.0'']
               ''CONFLICT (content): Merge conflict in README.rst''),
        race_prelude ex_branch ''12.0''
        @ [GhRepository ''OCA'' ''repo'',
           GitUserCanPush ''OCA'' ''repo'' ''alice'',
           GhPullRequest ''OCA'' ''repo'' 42,
           TemporaryClone ''OCA'' ''repo'' ''12.0'',
           GitCall [''git'', ''fetch'', ''origin'', ''pull/42/head:'' @ ex_branch],
           GitCall [''git'', ''checkout'', ex_branch],
           GitCall [''git'', ''rebase'', ''--autosquash'', ''12.0''],
           TemporaryCloneExit,
           CreateComment 42
             (start_failure_comment ''alice''
                (CalledProcessError [''git'', ''rebase'', ''--autosquash'', ''12.0'']
                   ''CONFLICT (content): Merge conflict in README.rst''))])
   \<and> parse_merge_bot_branch env_race_retarget ex_branch = Inr (42, ''12.0'', ''alice'', None)
   \<and> fst (subprocess_run env_race_retarget [GitCall [''git'', ''checkout'', ''12.0'']]
            [''git'', ''merge-base'', ''--is-ancestor'', ''12.0'', ex_branch]) = 1
   \<and> merge_bot_merge_pr env_race_retarget ''OCA'' ''repo'' ex_branch False [] =
       (Inr False,
        race_prelude ex_branch ''12.0''
        @ [GhRepository ''OCA'' ''repo'',
           GitUserCanPush ''OCA'' ''repo'' ''alice'',
           GhPullRequest ''OCA'' ''repo'' 42,
           TemporaryClone ''OCA'' ''repo'' ''13.0'',
           GitCall [''git'', ''fetch'', ''origin'', ''pull/42/head:'' @ ex_branch_13],
           GitCall [''git'', ''checkout'', ex_branch_13],
           GitCall [''git'', ''rebase'', ''--autosquash'', ''13.0''],
           GitCall [''git'', ''push'', ''origin'', '':'' @ ex_branch_13],
           GitCall [''git'', ''push'', ''origin'', ex_branch_13],
           CreateComment 42
             (rebased_comment (retry_intro_message ''12.0'') ''OCA'' ''repo'' ex_branch_13),
           TemporaryCloneExit])
   \<and> parse_merge_bot_branch env_race_retarget ex_branch_13 = Inr (42, ''13.0'', ''alice'', None)"
  by (simp add: merge_bot_merge_pr_def merge_bot_start_def merge_bot_start_try_def Let_def run_defs
      race_prelude_def env_race_conflict_def env_race_retarget_def env_race_def env_ok_def
      ex_parse_def ex_make_def ex_branch_def ex_branch_minor_def ex_branch_13_def ex_pr_def
      str_nat_42 retry_intro_message_def)

text \<open>
  The theorem at work: the target branch moved, the pull request still targets
  \<^verbatim>\<open>12.0\<close> and the restart succeeds. The finalization returns \<^verbatim>\<open>False\<close>, runs no
  \<^verbatim>\<open>git merge\<close> and no \<^verbatim>\<open>git push origin 12.0\<close>, pushes the bot branch again, and all
  its git commands are the checkout of \<^verbatim>\<open>12.0\<close> and the commands of a start for
  \<^verbatim>\<open>12.0\<close> and the same bot branch.
\<close>

theorem race_restarts_start_witness:
  "parse_merge_bot_branch env_race ex_branch = Inr (42, ''12.0'', ''alice'', None)
   \<and> fst (subprocess_run env_race [] [''git'', ''checkout'', ''12.0'']) = 0
   \<and> fst (subprocess_run env_race ([] @ [GitCall [''git'', ''checkout'', ''12.0'']])
            [''git'', ''merge-base'', ''--is-ancestor'', ''12.0'', ex_branch]) = 1
   \<and> (\<forall>h1. pull_request env_race h1 ''OCA'' ''repo'' 42 = Inr ex_pr)
   \<and> base_ref ex_pr = ''12.0''
   \<and> (\<forall>t. make_merge_bot_branch env_race 42 t ''alice'' None \<noteq> ''12.0''
          \<and> '':'' @ make_merge_bot_branch env_race 42 t ''alice'' None \<noteq> ''12.0'')
   \<and> make_merge_bot_branch env_race 42 ''12.0'' ''alice'' None = ex_branch
   \<and> fst (merge_bot_merge_pr env_race ''OCA'' ''repo'' ex_branch False []) = Inr False
   \<and> (\<forall>args. GitCall (''git'' # ''merge'' # args)
         \<notin> set (snd (merge_bot_merge_pr env_race ''OCA'' ''repo'' ex_branch False [])))
   \<and> GitCall [''git'', ''push'', ''origin'', ''12.0'']
       \<notin> set (snd (merge_bot_merge_pr env_race ''OCA'' ''repo'' ex_branch False []))
   \<and> GitCall [''git'', ''push'', ''origin'', ex_branch]
       \<in> set (snd (merge_bot_merge_pr env_race ''OCA'' ''repo'' ex_branch False []))
   \<and> {c. GitCall c \<in> set (snd (merge_bot_merge_pr env_race ''OCA'' ''repo'' ex_branch False []))}
       \<subseteq> insert [''git'', ''checkout'', ''12.0''] (set (start_git_calls 42 ''12.0'' ex_branch))"
proof -
  let ?start = "merge_bot_start env_race ''OCA'' ''repo'' 42 ''alice'' None False
                  (Some (retry_intro_message ''12.0''))"
  let ?run = "merge_bot_merge_pr env_race ''OCA'' ''repo'' ex_branch False []"
  have p: "parse_merge_bot_branch env_race ex_branch = Inr (42, ''12.0'', ''alice'', None)"
    by (simp add: env_race_def env_ok_def ex_parse_def)
  have c: "fst (subprocess_run env_race [] [''git'', ''checkout'', ''12.0'']) = 0"
    by (simp add: env_race_def env_ok_def)
  have a: "fst (subprocess_run env_race ([] @ [GitCall [''git'', ''checkout'', ''12.0'']])
            [''git'', ''merge-base'', ''--is-ancestor'', ''12.0'', ex_branch]) = 1"
    by (simp add: env_race_def env_ok_def)
  then have a': "fst (subprocess_run env_race ([] @ [GitCall [''git'', ''checkout'', ''12.0'']])
            [''git'', ''merge-base'', ''--is-ancestor'', ''12.0'', ex_branch]) \<noteq> 0"
    by simp
  have q: "\<forall>h1. pull_request env_race h1 ''OCA'' ''repo'' 42 = Inr ex_pr"
    by (simp add: env_race_def env_ok_def)
  have b: "base_ref ex_pr = ''12.0''"
    by (simp add: ex_pr_def)
  from q b have same_hyp:
    "\<forall>h1 p. pull_request env_race h1 ''OCA'' ''repo'' 42 = Inr p \<longrightarrow> base_ref p = ''12.0''"
    by simp
  have mk: "make_merge_bot_branch env_race 42 ''12.0'' ''alice'' None = ex_branch"
    by (simp add: env_race_def env_ok_def ex_make_def ex_branch_def str_nat_42)
  have codec: "\<forall>t. make_merge_bot_branch env_race 42 t ''alice'' None \<noteq> ''12.0''
                 \<and> '':'' @ make_merge_bot_branch env_race 42 t ''alice'' None \<noteq> ''12.0''"
  proof (intro allI conjI notI)
    fix t
    assume "make_merge_bot_branch env_race 42 t ''alice'' None = ''12.0''"
    from arg_cong [OF this, of length] show False
      by (simp add: env_race_def env_ok_def ex_make_def)
  next
    fix t
    assume "'':'' @ make_merge_bot_branch env_race 42 t ''alice'' None = ''12.0''"
    from arg_cong [OF this, of length] show False
      by (simp add: env_race_def env_ok_def ex_make_def)
  qed
  have s: "fst (?start ([] @ race_prelude ex_branch ''12.0'')) = Inr ()"
    by (simp add: merge_bot_start_def merge_bot_start_try_def Let_def run_defs
        race_prelude_def env_race_def env_ok_def ex_make_def ex_branch_def
        ex_pr_def str_nat_42 retry_intro_message_def)
  have pushed: "GitCall [''git'', ''push'', ''origin'', ex_branch] \<in> set (snd ?run)"
    by (simp add: merge_bot_merge_pr_def merge_bot_start_def merge_bot_start_try_def Let_def
        run_defs race_prelude_def env_race_def env_ok_def ex_parse_def ex_make_def ex_branch_def
        ex_pr_def str_nat_42 retry_intro_message_def)
  from race_restarts_start [OF p c a', of "''OCA''" "''repo''" False]
  obtain r new where
    st: "?start ([] @ race_prelude ex_branch ''12.0'')
           = (r, [] @ race_prelude ex_branch ''12.0'' @ new)"
    and fin: "?run = (case r of Inl e \<Rightarrow> Inl e | Inr u \<Rightarrow> Inr False,
                      [] @ race_prelude ex_branch ''12.0'' @ new)"
    and nm: "\<forall>args. GitCall (''git'' # ''merge'' # args)
               \<notin> set (race_prelude ex_branch ''12.0'' @ new)"
    and nt: "(\<forall>t. make_merge_bot_branch env_race 42 t ''alice'' None \<noteq> ''12.0''
                 \<and> '':'' @ make_merge_bot_branch env_race 42 t ''alice'' None \<noteq> ''12.0'') \<longrightarrow>
               GitCall [''git'', ''push'', ''origin'', ''12.0'']
                 \<notin> set (race_prelude ex_branch ''12.0'' @ new)
             \<and> (\<forall>args. GitCall (''git'' # ''push'' # args)
                     \<in> set (race_prelude ex_branch ''12.0'' @ new) \<longrightarrow>
                   (\<exists>b. b \<noteq> ''12.0''
                      \<and> (args = [''origin'', b] \<or> args = [''origin'', '':'' @ b])))"
    and same: "(\<forall>h1 p. pull_request env_race h1 ''OCA'' ''repo'' 42 = Inr p
                  \<longrightarrow> base_ref p = ''12.0'') \<longrightarrow>
               (\<forall>c. GitCall c \<in> set (race_prelude ex_branch ''12.0'' @ new) \<longrightarrow>
                  c = [''git'', ''checkout'', ''12.0'']
                \<or> c \<in> set (start_git_calls 42 ''12.0''
                              (make_merge_bot_branch env_race 42 ''12.0'' ''alice'' None)))"
    by (elim exE conjE)
  from st s have r: "r = Inr ()" by simp
  from fin r have res: "fst ?run = Inr False"
    and evs: "snd ?run = race_prelude ex_branch ''12.0'' @ new"
    by simp_all
  from nm evs have c1: "\<forall>args. GitCall (''git'' # ''merge'' # args) \<notin> set (snd ?run)"
    by simp
  from nt codec evs have c2: "GitCall [''git'', ''push'', ''origin'', ''12.0''] \<notin> set (snd ?run)"
    by simp
  from same same_hyp evs mk have
    "\<forall>c. GitCall c \<in> set (snd ?run) \<longrightarrow>
       c = [''git'', ''checkout'', ''12.0''] \<or> c \<in> set (start_git_calls 42 ''12.0'' ex_branch)"
    by simp
  then have c3: "{c. GitCall c \<in> set (snd ?run)}
       \<subseteq> insert [''git'', ''checkout'', ''12.0''] (set (start_git_calls 42 ''12.0'' ex_branch))"
    by blast
  from p c a q b codec mk res c1 c2 pushed c3 show ?thesis
    by (intro conjI)
qed

subsection \<open>Failures of a start\<close>

lemma start_disabled:
  "\<not> merge_bot_enabled env \<Longrightarrow>
   merge_bot_start env org repo pr user bump dry intro h = (Inr (), h)"
  by (simp add: merge_bot_start_def ret_def)

lemma start_repository_fails:
  "merge_bot_enabled env \<Longrightarrow> effect env h (GhRepository org repo) = Some e \<Longrightarrow>
   merge_bot_start env org repo pr user bump dry intro h = (Inl e, h @ [GhRepository org repo])"
  by (simp add: merge_bot_start_def run_apply)

lemma start_permission_check_fails:
  "merge_bot_enabled env \<Longrightarrow> effect env h (GhRepository org repo) = None \<Longrightarrow>
   git_user_can_push env (h @ [GhRepository org repo]) org repo user = Inl e \<Longrightarrow>
   merge_bot_start env org repo pr user bump dry intro h =
     (Inl e, h @ [GhRepository org repo, GitUserCanPush org repo user])"
  by (simp add: merge_bot_start_def run_apply)

lemma start_pull_request_fails:
  "merge_bot_enabled env \<Longrightarrow> effect env h (GhRepository org repo) = None \<Longrightarrow>
   git_user_can_push env (h @ [GhRepository org repo]) org repo user = Inr b \<Longrightarrow>
   pull_request env (h @ [GhRepository org repo, GitUserCanPush org repo user]) org repo pr
     = Inl e \<Longrightarrow>
   merge_bot_start env org repo pr user bump dry intro h =
     (Inl e, h @ [GhRepository org repo, GitUserCanPush org repo user, GhPullRequest org repo pr])"
  by (simp add: merge_bot_start_def run_apply)

lemma start_denied:
  "merge_bot_enabled env \<Longrightarrow> effect env h (GhRepository org repo) = None \<Longrightarrow>
   git_user_can_push env (h @ [GhRepository org repo]) org repo user = Inr False \<Longrightarrow>
   pull_request env (h @ [GhRepository org repo, GitUserCanPush org repo user]) org repo pr
     = Inr gh_pr \<Longrightarrow>
   merge_bot_start env org repo pr user bump dry intro h =
     (case effect env
             (h @ [GhRepository org repo, GitUserCanPush org repo user,
                   GhPullRequest org repo pr])
             (CreateComment pr (no_push_permission_comment user)) of
        None \<Rightarrow> Inr () | Some e \<Rightarrow> Inl e,
      h @ [GhRepository org repo, GitUserCanPush org repo user, GhPullRequest org repo pr,
           CreateComment pr (no_push_permission_comment user)])"
  by (simp add: merge_bot_start_def run_apply)

lemma start_allowed:
  "merge_bot_enabled env \<Longrightarrow> effect env h (GhRepository org repo) = None \<Longrightarrow>
   git_user_can_push env (h @ [GhRepository org repo]) org repo user = Inr True \<Longrightarrow>
   pull_request env (h @ [GhRepository org repo, GitUserCanPush org repo user]) org repo pr
     = Inr gh_pr \<Longrightarrow>
   merge_bot_start env org repo pr user bump dry intro h =
     (case merge_bot_start_try env org repo pr user bump intro (base_ref gh_pr)
             (h @ [GhRepository org repo, GitUserCanPush org repo user,
                   GhPullRequest org repo pr]) of
        (Inr u, h') \<Rightarrow> (Inr (), h')
      | (Inl e, h') \<Rightarrow>
          (Inl (case effect env h' (CreateComment pr (start_failure_comment user e)) of
                  None \<Rightarrow> e | Some e' \<Rightarrow> e'),
           h' @ [CreateComment pr (start_failure_comment user e)]))"
  by (simp add: merge_bot_start_def run_apply split: prod.splits sum.splits option.splits)

text \<open>
  Claim C7, amended. The outcome of \<^verbatim>\<open>merge_bot_start\<close>, case by case. With the switch
  off it does nothing. A failure of the repository lookup, of the permission check or
  of the lookup of the pull request propagates and nothing is posted. When the user may
  not push, the only further call is the comment addressed to the user, and the start
  returns normally unless that comment fails; no git command is run. When the user may
  push, the start returns normally if the guarded sequence does; if the guarded sequence
  raises, a comment is posted (with the command and its output for a command failure,
  with the description of any other exception) and the same exception is raised again,
  unless posting the comment raises, in which case that exception propagates.
\<close>

theorem start_reports_guarded_failures:
  "(\<not> merge_bot_enabled env \<longrightarrow>
      merge_bot_start env org repo pr user bump dry intro h = (Inr (), h))
   \<and> (merge_bot_enabled env \<and> effect env h (GhRepository org repo) = Some e \<longrightarrow>
      merge_bot_start env org repo pr user bump dry intro h = (Inl e, h @ [GhRepository org repo]))
   \<and> (merge_bot_enabled env \<and> effect env h (GhRepository org repo) = None
        \<and> git_user_can_push env (h @ [GhRepository org repo]) org repo user = Inl e \<longrightarrow>
      merge_bot_start env org repo pr user bump dry intro h =
        (Inl e, h @ [GhRepository org repo, GitUserCanPush org repo user]))
   \<and> (merge_bot_enabled env \<and> effect env h (GhRepository org repo) = None
        \<and> git_user_can_push env (h @ [GhRepository org repo]) org repo user = Inr b
        \<and> pull_request env (h @ [GhRepository org repo, GitUserCanPush org repo user])
              org repo pr = Inl e \<longrightarrow>
      merge_bot_start env org repo pr user bump dry intro h =
        (Inl e,
         h @ [GhRepository org repo, GitUserCanPush org repo user, GhPullRequest org repo pr]))
   \<and> (merge_bot_enabled env \<and> effect env h (GhRepository org repo) = None
        \<and> git_user_can_push env (h @ [GhRepository org repo]) org repo user = Inr False
        \<and> pull_request env (h @ [GhRepository org repo, GitUserCanPush org repo user])
              org repo pr = Inr gh_pr \<longrightarrow>
      merge_bot_start env org repo pr user bump dry intro h =
        (case effect env
                (h @ [GhRepository org repo, GitUserCanPush org repo user,
                      GhPullRequest org repo pr])
                (CreateComment pr (no_push_permission_comment user)) of
           None \<Rightarrow> Inr () | Some e' \<Rightarrow> Inl e',
         h @ [GhRepository org repo, GitUserCanPush org repo user, GhPullRequest org repo pr,
              CreateComment pr (no_push_permission_comment user)]))
   \<and> (merge_bot_enabled env \<and> effect env h (GhRepository org repo) = None
        \<and> git_user_can_push env (h @ [GhRepository org repo]) org repo user = Inr True
        \<and> pull_request env (h @ [GhRepository org repo, GitUserCanPush org repo user])
              org repo pr = Inr gh_pr \<longrightarrow>
      merge_bot_start env org repo pr user bump dry intro h =
        (case merge_bot_start_try env org repo pr user bump intro (base_ref gh_pr)
                (h @ [GhRepository org repo, GitUserCanPush org repo user,
                      GhPullRequest org repo pr]) of
           (Inr u, h') \<Rightarrow> (Inr (), h')
         | (Inl e', h') \<Rightarrow>
             (Inl (case effect env h' (CreateComment pr (start_failure_comment user e')) of
                     None \<Rightarrow> e' | Some e'' \<Rightarrow> e''),
              h' @ [CreateComment pr (start_failure_comment user e')])))
   \<and> start_failure_comment user (CalledProcessError c out) =
       ''@'' @ user @ '' The merge process could not start, because command `'' @ join_sp c
       @ ''` failed with output:'' @ [CHR 10] @ ''```'' @ [CHR 10] @ out @ [CHR 10] @ ''```''
   \<and> start_failure_comment user (OtherException d) =
       ''@'' @ user @ '' The merge process could not start, because of exception '' @ d @ ''.''
   \<and> no_push_permission_comment user =
       ''Sorry @'' @ user @ '' you do not have push permission, so I can't merge for you.''"
  using start_disabled [of env org repo pr user bump dry intro h]
    start_repository_fails [of env h org repo e pr user bump dry intro]
    start_permission_check_fails [of env h org repo user e pr bump dry intro]
    start_pull_request_fails [of env h org repo user b pr e bump dry intro]
    start_denied [of env h org repo user pr gh_pr bump dry intro]
    start_allowed [of env h org repo user pr gh_pr bump dry intro]
  by (simp add: no_push_permission_comment_def)

text \<open>
  Against claim C7 as it is written: the permission check passes and the lookup of the
  pull request fails. The start raises and no comment is posted.
\<close>

theorem start_unreported_failure_counterexample:
  "git_user_can_push env_no_pr [GhRepository ''OCA'' ''repo''] ''OCA'' ''repo'' ''alice'' = Inr True
   \<and> merge_bot_start env_no_pr ''OCA'' ''repo'' 42 ''alice'' None False None [] =
       (Inl (OtherException ''404 Not Found''),
        [GhRepository ''OCA'' ''repo'',
         GitUserCanPush ''OCA'' ''repo'' ''alice'',
         GhPullRequest ''OCA'' ''repo'' 42])"
  by (simp add: merge_bot_start_def run_apply env_no_pr_def env_ok_def)

text \<open>
  The theorem at work: a user who may not push; a rebase that runs into a conflict; a
  start that succeeds.
\<close>

theorem start_reports_guarded_failures_witness:
  "merge_bot_start env_denied ''OCA'' ''repo'' 42 ''alice'' None False None [] =
     (Inr (),
      [GhRepository ''OCA'' ''repo'',
       GitUserCanPush ''OCA'' ''repo'' ''alice'',
       GhPullRequest ''OCA'' ''repo'' 42,
       CreateComment 42 (no_push_permission_comment ''alice'')])
   \<and> merge_bot_start env_conflict ''OCA'' ''repo'' 42 ''alice'' None False None [] =
       (Inl (CalledProcessError [''git'', ''rebase'', ''--autosquash'', ''12.0'']
               ''CONFLICT (content): Merge conflict in README.rst''),
        [GhRepository ''OCA'' ''repo'',
         GitUserCanPush ''OCA'' ''repo'' ''alice'',
         GhPullRequest ''OCA'' ''repo'' 42,
         TemporaryClone ''OCA'' ''repo'' ''12.0'',
         GitCall [''git'', ''fetch'', ''origin'', ''pull/42/head:'' @ ex_branch],
         GitCall [''git'', ''checkout'', ex_branch],
         GitCall [''git'', ''rebase'', ''--autosquash'', ''12.0''],
         TemporaryCloneExit,
         CreateComment 42
           (start_failure_comment ''alice''
              (CalledProcessError [''git'', ''rebase'', ''--autosquash'', ''12.0'']
                 ''CONFLICT (content): Merge conflict in README.rst''))])
   \<and> merge_bot_start env_ok ''OCA'' ''repo'' 42 ''alice'' None False None [] =
       (Inr (),
        [GhRepository ''OCA'' ''repo'',
         GitUserCanPush ''OCA'' ''repo'' ''alice'',
         GhPullRequest ''OCA'' ''repo'' 42,
         TemporaryClone ''OCA'' ''repo'' ''12.0'',
         GitCall [''git'', ''fetch'', ''origin'', ''pull/42/head:'' @ ex_branch],
         GitCall [''git'', ''checkout'', ex_branch],
         GitCall [''git'', ''rebase'', ''--autosquash'', ''12.0''],
         GitCall [''git'', ''push'', ''origin'', '':'' @ ex_branch],
         GitCall [''git'', ''push'', ''origin'', ex_branch],
         RandInt 0 0,
         CreateComment 42
           (rebased_comment ''On my way to merge this fine PR!'' ''OCA'' ''repo'' ex_branch),
         TemporaryCloneExit])"
proof -
  let ?h3 = "[] @ [GhRepository ''OCA'' ''repo'', GitUserCanPush ''OCA'' ''repo'' ''alice'',
                   GhPullRequest ''OCA'' ''repo'' 42]"
  have denied:
    "merge_bot_enabled env_denied \<and> effect env_denied [] (GhRepository ''OCA'' ''repo'') = None
     \<and> git_user_can_push env_denied ([] @ [GhRepository ''OCA'' ''repo'']) ''OCA'' ''repo'' ''alice''
         = Inr False
     \<and> pull_request env_denied
          ([] @ [GhRepository ''OCA'' ''repo'', GitUserCanPush ''OCA'' ''repo'' ''alice''])
          ''OCA'' ''repo'' 42 = Inr ex_pr"
    by (simp add: env_denied_def env_ok_def)
  have denied_comment:
    "effect env_denied ?h3 (CreateComment 42 (no_push_permission_comment ''alice'')) = None"
    by (simp add: env_denied_def env_ok_def)
  have c1: "merge_bot_start env_denied ''OCA'' ''repo'' 42 ''alice'' None False None [] =
     (Inr (),
      [GhRepository ''OCA'' ''repo'',
       GitUserCanPush ''OCA'' ''repo'' ''alice'',
       GhPullRequest ''OCA'' ''repo'' 42,
       CreateComment 42 (no_push_permission_comment ''alice'')])"
    using start_reports_guarded_failures
      [of env_denied "''OCA''" "''repo''" 42 "''alice''" None False None "[]" _ _ ex_pr]
      denied denied_comment
    by simp
  have allowed: "\<And>env. env = env_conflict \<or> env = env_ok \<Longrightarrow>
     merge_bot_enabled env \<and> effect env [] (GhRepository ''OCA'' ''repo'') = None
     \<and> git_user_can_push env ([] @ [GhRepository ''OCA'' ''repo'']) ''OCA'' ''repo'' ''alice''
         = Inr True
     \<and> pull_request env
          ([] @ [GhRepository ''OCA'' ''repo'', GitUserCanPush ''OCA'' ''repo'' ''alice''])
          ''OCA'' ''repo'' 42 = Inr ex_pr"
    by (auto simp: env_conflict_def env_ok_def)
  have try_conflict:
    "merge_bot_start_try env_conflict ''OCA'' ''repo'' 42 ''alice'' None None (base_ref ex_pr) ?h3 =
       (Inl (CalledProcessError [''git'', ''rebase'', ''--autosquash'', ''12.0'']
               ''CONFLICT (content): Merge conflict in README.rst''),
        [GhRepository ''OCA'' ''repo'',
         GitUserCanPush ''OCA'' ''repo'' ''alice'',
         GhPullRequest ''OCA'' ''repo'' 42,
         TemporaryClone ''OCA'' ''repo'' ''12.0'',
         GitCall [''git'', ''fetch'', ''origin'', ''pull/42/head:'' @ ex_branch],
         GitCall [''git'', ''checkout'', ex_branch],
         GitCall [''git'', ''rebase'', ''--autosquash'', ''12.0''],
         TemporaryCloneExit])"
    by (simp add: merge_bot_start_try_def Let_def run_defs env_conflict_def env_ok_def
        ex_make_def ex_branch_def ex_pr_def str_nat_42)
  have c2: "merge_bot_start env_conflict ''OCA'' ''repo'' 42 ''alice'' None False None [] =
       (Inl (CalledProcessError [''git'', ''rebase'', ''--autosquash'', ''12.0'']
               ''CONFLICT (content): Merge conflict in README.rst''),
        [GhRepository ''OCA'' ''repo'',
         GitUserCanPush ''OCA'' ''repo'' ''alice'',
         GhPullRequest ''OCA'' ''repo'' 42,
         TemporaryClone ''OCA'' ''repo'' ''12.0'',
         GitCall [''git'', ''fetch'', ''origin'', ''pull/42/head:'' @ ex_branch],
         GitCall [''git'', ''checkout'', ex_branch],
         GitCall [''git'', ''rebase'', ''--autosquash'', ''12.0''],
         TemporaryCloneExit,
         CreateComment 42
           (start_failure_comment ''alice''
              (CalledProcessError [''git'', ''rebase'', ''--autosquash'', ''12.0'']
                 ''CONFLICT (content): Merge conflict in README.rst''))])"
    using start_reports_guarded_failures
      [of env_conflict "''OCA''" "''repo''" 42 "''alice''" None False None "[]" _ _ ex_pr]
      allowed [of env_conflict] try_conflict
    by (simp add: env_conflict_def env_ok_def)
  have try_ok:
    "merge_bot_start_try env_ok ''OCA'' ''repo'' 42 ''alice'' None None (base_ref ex_pr) ?h3 =
       (Inr (),
        [GhRepository ''OCA'' ''repo'',
         GitUserCanPush ''OCA'' ''repo'' ''alice'',
         GhPullRequest ''OCA'' ''repo'' 42,
         TemporaryClone ''OCA'' ''repo'' ''12.0'',
         GitCall [''git'', ''fetch'', ''origin'', ''pull/42/head:'' @ ex_branch],
         GitCall [''git'', ''checkout'', ex_branch],
         GitCall [''git'', ''rebase'', ''--autosquash'', ''12.0''],
         GitCall [''git'', ''push'', ''origin'', '':'' @ ex_branch],
         GitCall [''git'', ''push'', ''origin'', ex_branch],
         RandInt 0 0,
         CreateComment 42
           (rebased_comment ''On my way to merge this fine PR!'' ''OCA'' ''repo'' ex_branch),
         TemporaryCloneExit])"
    by (simp add: merge_bot_start_try_def Let_def run_defs env_ok_def
        ex_make_def ex_branch_def ex_pr_def str_nat_42)
  have c3: "merge_bot_start env_ok ''OCA'' ''repo'' 42 ''alice'' None False None [] =
       (Inr (),
        [GhRepository ''OCA'' ''repo'',
         GitUserCanPush ''OCA'' ''repo'' ''alice'',
         GhPullRequest ''OCA'' ''repo'' 42,
         TemporaryClone ''OCA'' ''repo'' ''12.0'',
         GitCall [''git'', ''fetch'', ''origin'', ''pull/42/head:'' @ ex_branch],
         GitCall [''git'', ''checkout'', ex_branch],
         GitCall [''git'', ''rebase'', ''--autosquash'', ''12.0''],
         GitCall [''git'', ''push'', ''origin'', '':'' @ ex_branch],
         GitCall [''git'', ''push'', ''origin'', ex_branch],
         RandInt 0 0,
         CreateComment 42
           (rebased_comment ''On my way to merge this fine PR!'' ''OCA'' ''repo'' ex_branch),
         TemporaryCloneExit])"
    using start_reports_guarded_failures
      [of env_ok "''OCA''" "''repo''" 42 "''alice''" None False None "[]" _ _ ex_pr]
      allowed [of env_ok] try_ok
    by simp
  from c1 c2 c3 show ?thesis by blast
qed

subsection \<open>The status event finalizes for real\<close>

lemma merge_sequence_real_run:
  fixes env org repo mbb pr target user bump dirs pr_obj sha
  defines "tr \<equiv> merge_sequence env org repo mbb False pr target user bump dirs pr_obj sha"
  shows "GitCall [''git'', ''merge'', ''--no-ff'', ''--m'', merge_msg pr target user, mbb] \<in> set tr"
    and "GitCall [''git'', ''push'', ''origin'', target] \<in> set tr"
    and "AddLabels pr LABEL_MERGED \<in> set tr"
  unfolding tr_def
  by (auto simp: trace_defs split: option.splits if_splits)

lemma status_success_run:
  assumes "merge_bot_enabled env"
    and "effect env h (TemporaryClone org repo mbb) = None"
    and "git_get_head_sha env (h @ [TemporaryClone org repo mbb]) = Inr sha"
    and "parse_merge_bot_branch env mbb = Inr (pr, target, user, bump)"
    and "effect env (h @ [TemporaryClone org repo mbb, GitGetHeadSha]) (GhRepository org repo)
           = None"
    and "pull_request env
           (h @ [TemporaryClone org repo mbb, GitGetHeadSha, GhRepository org repo])
           org repo pr = Inr gh_pr"
    and "effect env
           (h @ [TemporaryClone org repo mbb, GitGetHeadSha, GhRepository org repo,
                 GhPullRequest org repo pr])
           (GhCommit org repo sha) = None"
    and "get_commit_success env sha
           (h @ [TemporaryClone org repo mbb, GitGetHeadSha, GhRepository org repo,
                 GhPullRequest org repo pr, GhCommit org repo sha])
           = (Inr (Some True), h6)"
  shows "merge_bot_status env org repo mbb sha h =
           (case merge_bot_merge_pr env org repo mbb False h6 of
              (Inr merged, h7) \<Rightarrow> (Inr (), h7 @ [TemporaryCloneExit])
            | (Inl e, h7) \<Rightarrow>
                (Inl (case effect env h7 (CreateComment pr (finalize_failure_comment user e)) of
                        None \<Rightarrow> e | Some e' \<Rightarrow> e'),
                 h7 @ [CreateComment pr (finalize_failure_comment user e), TemporaryCloneExit]))"
  using assms
  by (simp add: merge_bot_status_def run_apply split: prod.splits sum.splits option.splits)

text \<open>
  Claim C9. \<^verbatim>\<open>merge_bot_start\<close> does not read \<^verbatim>\<open>dry_run\<close>: a start in dry-run mode is
  the same run as a start without it, and the branch name it pushes is made from the
  pull request, the target branch, the user name and the bump policy only. When a
  status event is not stale and the verdict is Success, \<^verbatim>\<open>merge_bot_status\<close> runs
  \<^verbatim>\<open>_merge_bot_merge_pr\<close> with \<^verbatim>\<open>dry_run = False\<close>; when that finalization merges, it
  made the merge commit, pushed the target branch and added the label for real.
\<close>

theorem status_finalizes_without_dry_run:
  "merge_bot_start env org repo pr user bump dry intro
     = merge_bot_start env org repo pr user bump False intro
   \<and> (merge_bot_enabled env
        \<and> effect env h (TemporaryClone org repo mbb) = None
        \<and> git_get_head_sha env (h @ [TemporaryClone org repo mbb]) = Inr sha
        \<and> parse_merge_bot_branch env mbb = Inr (pr, target, user, bump)
        \<and> effect env (h @ [TemporaryClone org repo mbb, GitGetHeadSha]) (GhRepository org repo)
             = None
        \<and> pull_request env
             (h @ [TemporaryClone org repo mbb, GitGetHeadSha, GhRepository org repo])
             org repo pr = Inr gh_pr
        \<and> effect env
             (h @ [TemporaryClone org repo mbb, GitGetHeadSha, GhRepository org repo,
                   GhPullRequest org repo pr])
             (GhCommit org repo sha) = None
        \<and> get_commit_success env sha
             (h @ [TemporaryClone org repo mbb, GitGetHeadSha, GhRepository org repo,
                   GhPullRequest org repo pr, GhCommit org repo sha])
             = (Inr (Some True), h6)
      \<longrightarrow> merge_bot_status env org repo mbb sha h =
            (case merge_bot_merge_pr env org repo mbb False h6 of
               (Inr merged, h7) \<Rightarrow> (Inr (), h7 @ [TemporaryCloneExit])
             | (Inl e, h7) \<Rightarrow>
                 (Inl (case effect env h7 (CreateComment pr (finalize_failure_comment user e)) of
                         None \<Rightarrow> e | Some e' \<Rightarrow> e'),
                  h7 @ [CreateComment pr (finalize_failure_comment user e),
                        TemporaryCloneExit]))
          \<and> (\<forall>h7. merge_bot_merge_pr env org repo mbb False h6 = (Inr True, h7) \<longrightarrow>
                (\<exists>new. h7 = h6 @ new
                   \<and> merge_bot_status env org repo mbb sha h
                       = (Inr (), h6 @ new @ [TemporaryCloneExit])
                   \<and> GitCall [''git'', ''merge'', ''--no-ff'', ''--m'',
                               merge_msg pr target user, mbb] \<in> set new
                   \<and> GitCall [''git'', ''push'', ''origin'', target] \<in> set new
                   \<and> AddLabels pr LABEL_MERGED \<in> set new)))"
proof (intro conjI impI allI)
  show "merge_bot_start env org repo pr user bump dry intro
          = merge_bot_start env org repo pr user bump False intro"
    by (simp add: merge_bot_start_def)
next
  assume a: "merge_bot_enabled env
        \<and> effect env h (TemporaryClone org repo mbb) = None
        \<and> git_get_head_sha env (h @ [TemporaryClone org repo mbb]) = Inr sha
        \<and> parse_merge_bot_branch env mbb = Inr (pr, target, user, bump)
        \<and> effect env (h @ [TemporaryClone org repo mbb, GitGetHeadSha]) (GhRepository org repo)
             = None
        \<and> pull_request env
             (h @ [TemporaryClone org repo mbb, GitGetHeadSha, GhRepository org repo])
             org repo pr = Inr gh_pr
        \<and> effect env
             (h @ [TemporaryClone org repo mbb, GitGetHeadSha, GhRepository org repo,
                   GhPullRequest org repo pr])
             (GhCommit org repo sha) = None
        \<and> get_commit_success env sha
             (h @ [TemporaryClone org repo mbb, GitGetHeadSha, GhRepository org repo,
                   GhPullRequest org repo pr, GhCommit org repo sha])
             = (Inr (Some True), h6)"
  then show run: "merge_bot_status env org repo mbb sha h =
            (case merge_bot_merge_pr env org repo mbb False h6 of
               (Inr merged, h7) \<Rightarrow> (Inr (), h7 @ [TemporaryCloneExit])
             | (Inl e, h7) \<Rightarrow>
                 (Inl (case effect env h7 (CreateComment pr (finalize_failure_comment user e)) of
                         None \<Rightarrow> e | Some e' \<Rightarrow> e'),
                  h7 @ [CreateComment pr (finalize_failure_comment user e),
                        TemporaryCloneExit]))"
    using status_success_run [of env h org repo mbb sha pr target user bump gh_pr h6] by blast
  fix h7
  assume m: "merge_bot_merge_pr env org repo mbb False h6 = (Inr True, h7)"
  from a have p: "parse_merge_bot_branch env mbb = Inr (pr, target, user, bump)" by blast
  from merge_bot_merge_pr_True [OF p m] obtain dirs pr_obj msha where
    h7: "h7 = h6 @ merge_sequence env org repo mbb False pr target user bump dirs pr_obj msha"
    by blast
  let ?new = "merge_sequence env org repo mbb False pr target user bump dirs pr_obj msha"
  have "merge_bot_status env org repo mbb sha h = (Inr (), h6 @ ?new @ [TemporaryCloneExit])"
    using run m h7 by simp
  with h7 merge_sequence_real_run [where env = env and org = org and repo = repo and mbb = mbb
      and pr = pr and target = target and user = user and bump = bump and dirs = dirs
      and pr_obj = pr_obj and sha = msha]
  show "\<exists>new. h7 = h6 @ new
                   \<and> merge_bot_status env org repo mbb sha h
                       = (Inr (), h6 @ new @ [TemporaryCloneExit])
                   \<and> GitCall [''git'', ''merge'', ''--no-ff'', ''--m'',
                               merge_msg pr target user, mbb] \<in> set new
                   \<and> GitCall [''git'', ''push'', ''origin'', target] \<in> set new
                   \<and> AddLabels pr LABEL_MERGED \<in> set new"
    by blast
qed

text \<open>The theorem at work in the environment where all goes well.\<close>

theorem status_finalizes_without_dry_run_witness:
  "merge_bot_start env_ok ''OCA'' ''repo'' 42 ''alice'' None True None
     = merge_bot_start env_ok ''OCA'' ''repo'' 42 ''alice'' None False None
   \<and> get_commit_success env_ok ''f00d''
        [TemporaryClone ''OCA'' ''repo'' ex_branch, GitGetHeadSha, GhRepository ''OCA'' ''repo'',
         GhPullRequest ''OCA'' ''repo'' 42, GhCommit ''OCA'' ''repo'' ''f00d'']
       = (Inr (Some True),
          [TemporaryClone ''OCA'' ''repo'' ex_branch, GitGetHeadSha, GhRepository ''OCA'' ''repo'',
           GhPullRequest ''OCA'' ''repo'' 42, GhCommit ''OCA'' ''repo'' ''f00d'',
           GhStatus ''f00d'', GhCheckSuites ''f00d''])
   \<and> fst (merge_bot_status env_ok ''OCA'' ''repo'' ex_branch ''f00d'' []) = Inr ()
   \<and> GitCall [''git'', ''push'', ''origin'', ''12.0'']
       \<in> set (snd (merge_bot_status env_ok ''OCA'' ''repo'' ex_branch ''f00d'' []))
   \<and> AddLabels 42 LABEL_MERGED
       \<in> set (snd (merge_bot_status env_ok ''OCA'' ''repo'' ex_branch ''f00d'' []))"
proof -
  let ?h5 = "[] @ [TemporaryClone ''OCA'' ''repo'' ex_branch, GitGetHeadSha,
                   GhRepository ''OCA'' ''repo'', GhPullRequest ''OCA'' ''repo'' 42,
                   GhCommit ''OCA'' ''repo'' ''f00d'']"
  let ?h6 = "[TemporaryClone ''OCA'' ''repo'' ex_branch, GitGetHeadSha,
              GhRepository ''OCA'' ''repo'', GhPullRequest ''OCA'' ''repo'' 42,
              GhCommit ''OCA'' ''repo'' ''f00d'', GhStatus ''f00d'', GhCheckSuites ''f00d'']"
  let ?fin = "merge_bot_merge_pr env_ok ''OCA'' ''repo'' ex_branch False ?h6"
  have v: "get_commit_success env_ok ''f00d'' ?h5 = (Inr (Some True), ?h6)"
    by (simp add: get_commit_success_def run_apply env_ok_def ex_entry_defs startswith_def)
  have a: "merge_bot_enabled env_ok
        \<and> effect env_ok [] (TemporaryClone ''OCA'' ''repo'' ex_branch) = None
        \<and> git_get_head_sha env_ok ([] @ [TemporaryClone ''OCA'' ''repo'' ex_branch]) = Inr ''f00d''
        \<and> parse_merge_bot_branch env_ok ex_branch = Inr (42, ''12.0'', ''alice'', None)
        \<and> effect env_ok ([] @ [TemporaryClone ''OCA'' ''repo'' ex_branch, GitGetHeadSha])
             (GhRepository ''OCA'' ''repo'') = None
        \<and> pull_request env_ok
             ([] @ [TemporaryClone ''OCA'' ''repo'' ex_branch, GitGetHeadSha,
                    GhRepository ''OCA'' ''repo''])
             ''OCA'' ''repo'' 42 = Inr ex_pr
        \<and> effect env_ok
             ([] @ [TemporaryClone ''OCA'' ''repo'' ex_branch, GitGetHeadSha,
                    GhRepository ''OCA'' ''repo'', GhPullRequest ''OCA'' ''repo'' 42])
             (GhCommit ''OCA'' ''repo'' ''f00d'') = None"
    by (simp add: env_ok_def ex_parse_def)
  have "fst ?fin = Inr True"
    by (simp add: merge_bot_merge_pr_def run_defs env_ok_def ex_parse_def str_nat_42)
  then have m: "?fin = (Inr True, snd ?fin)"
    by (metis prod.collapse)
  from status_finalizes_without_dry_run
    [of env_ok "''OCA''" "''repo''" 42 "''alice''" None True None "[]" ex_branch "''f00d''"
        "''12.0''" ex_pr ?h6]
    a v m
  obtain new where
    "merge_bot_status env_ok ''OCA'' ''repo'' ex_branch ''f00d'' []
       = (Inr (), ?h6 @ new @ [TemporaryCloneExit])"
    "GitCall [''git'', ''push'', ''origin'', ''12.0''] \<in> set new"
    "AddLabels 42 LABEL_MERGED \<in> set new"
    by blast
  then have "fst (merge_bot_status env_ok ''OCA'' ''repo'' ex_branch ''f00d'' []) = Inr ()
     \<and> GitCall [''git'', ''push'', ''origin'', ''12.0'']
         \<in> set (snd (merge_bot_status env_ok ''OCA'' ''repo'' ex_branch ''f00d'' []))
     \<and> AddLabels 42 LABEL_MERGED
         \<in> set (snd (merge_bot_status env_ok ''OCA'' ''repo'' ex_branch ''f00d'' []))"
    by simp
  moreover have "merge_bot_start env_ok ''OCA'' ''repo'' 42 ''alice'' None True None
     = merge_bot_start env_ok ''OCA'' ''repo'' 42 ''alice'' None False None"
    using status_finalizes_without_dry_run
      [of env_ok "''OCA''" "''repo''" 42 "''alice''" None True None]
    by blast
  ultimately show ?thesis using v by simp
qed

end
